theory Spec2Isabelle
  imports Main "HOL-Library.Product_Lexorder" "HOL-Library.Multiset" "HOL-Library.Word"
begin

text \<open>
  A model of the fetch-and-compose core of the wallpaper program: the staleness gate and
  the closure \<^verbatim>\<open>doFetch\<close> of \<^verbatim>\<open>startFetcher\<close>, \<^verbatim>\<open>downloadImage\<close>,
  \<^verbatim>\<open>processWallpaper\<close>, \<^verbatim>\<open>setWallpaper\<close> and \<^verbatim>\<open>latestImage\<close>, in the version of
  the main file that downloads the tiles in parallel and pads the canvas with a border of
  180 pixels. The state of the program is passed explicitly, what the program does to the
  outside is returned as a list of events, and what the outside answers is a parameter.
\<close>

section \<open>Time values\<close>

text \<open>
  The program obtains every \<^verbatim>\<open>time.Time\<close> it handles from
  \<^verbatim>\<open>time.Parse("2006-01-02 15:04:05", raw)\<close> or from the zero value of the package
  variable \<^verbatim>\<open>latestImageTime\<close>. The layout names no zone, so each value is a UTC civil
  time. The program reads a time only through \<^verbatim>\<open>Year\<close>, \<^verbatim>\<open>Month\<close>, \<^verbatim>\<open>Day\<close>,
  \<^verbatim>\<open>Hour\<close>, \<^verbatim>\<open>Minute\<close>, \<^verbatim>\<open>Second\<close>, \<^verbatim>\<open>IsZero\<close> and \<^verbatim>\<open>After\<close>; the record keeps
  the civil fields (and the nanoseconds, which the parser fills from a fractional second),
  and the two predicates compare them in calendar order, which for UTC civil times is the
  order of the instants.
\<close>

record Time =
  Year :: int
  Month :: int
  Day :: int
  Hour :: int
  Minute :: int
  Second :: int
  Nanosecond :: int

definition instant :: "Time \<Rightarrow> int \<times> int \<times> int \<times> int \<times> int \<times> int \<times> int" where
  "instant t = (Year t, Month t, Day t, Hour t, Minute t, Second t, Nanosecond t)"

text \<open>The zero value of \<^verbatim>\<open>time.Time\<close>: January 1, year 1, 00:00:00 UTC.\<close>

definition zeroTime :: Time where
  "zeroTime = \<lparr>Year = 1, Month = 1, Day = 1, Hour = 0, Minute = 0, Second = 0, Nanosecond = 0\<rparr>"

text \<open>A UTC civil time with no fractional second, as the parser returns it.\<close>

definition utc :: "int \<Rightarrow> int \<Rightarrow> int \<Rightarrow> int \<Rightarrow> int \<Rightarrow> int \<Rightarrow> Time" where
  "utc y mo d h mi sec =
     \<lparr>Year = y, Month = mo, Day = d, Hour = h, Minute = mi, Second = sec, Nanosecond = 0\<rparr>"

definition IsZero :: "Time \<Rightarrow> bool" where
  "IsZero t \<longleftrightarrow> instant t = instant zeroTime"

text \<open>\<^verbatim>\<open>t.After(u)\<close>: the instant of \<open>t\<close> is strictly later than that of \<open>u\<close>.\<close>

definition After :: "Time \<Rightarrow> Time \<Rightarrow> bool" where
  "After t u \<longleftrightarrow> instant u < instant t"

section \<open>The freshness state and the staleness gate\<close>

text \<open>
  The package variables \<^verbatim>\<open>latestImageDate\<close> and \<^verbatim>\<open>latestImageTime\<close>; the mutex
  \<^verbatim>\<open>latestImageMu\<close> makes each critical section of \<^verbatim>\<open>doFetch\<close> one atomic step, which
  is how the model runs it.
\<close>

record State =
  latestImageDate :: string
  latestImageTime :: Time

definition initState :: State where
  "initState = \<lparr>latestImageDate = [], latestImageTime = zeroTime\<rparr>"

text \<open>
  The compare-and-update of \<^verbatim>\<open>doFetch\<close> (between \<^verbatim>\<open>latestImageMu.Lock()\<close> and the
  matching \<^verbatim>\<open>Unlock()\<close>): the flag says whether the branch that goes on to compose the
  wallpaper was taken.
\<close>

definition claim :: "State \<Rightarrow> string \<Rightarrow> Time \<Rightarrow> bool \<times> State" where
  "claim s raw parsed =
     (let prev = latestImageTime s in
      if IsZero prev \<or> After parsed prev
      then (True, s\<lparr>latestImageTime := parsed, latestImageDate := raw\<rparr>)
      else (False, s))"

text \<open>
  A sequence of candidates presented to the gate, one poll after the other: the candidates
  that were claimed, in order, and the state at the end.
\<close>

fun claims :: "State \<Rightarrow> (string \<times> Time) list \<Rightarrow> Time list \<times> State" where
  "claims s [] = ([], s)"
| "claims s ((raw, c) # cs) =
     (case claim s raw c of
        (True, s') \<Rightarrow> (case claims s' cs of (ts, s'') \<Rightarrow> (c # ts, s''))
      | (False, s') \<Rightarrow> claims s' cs)"

text \<open>\<open>t\<close> is the latest of the times \<open>ts\<close>.\<close>

definition latest_of :: "Time \<Rightarrow> Time list \<Rightarrow> bool" where
  "latest_of t ts \<longleftrightarrow> t \<in> set ts \<and> list_all (\<lambda>c. \<not> After c t) ts"

section \<open>Rectangles and images\<close>

text \<open>
  The parts of the packages \<^verbatim>\<open>image\<close>, \<^verbatim>\<open>image/color\<close> and \<^verbatim>\<open>image/draw\<close> that
  \<^verbatim>\<open>processWallpaper\<close> calls. A point is a pair of coordinates; a rectangle holds its
  \<^verbatim>\<open>Min\<close> and \<^verbatim>\<open>Max\<close> points and contains the points \<open>Min \<le> p < Max\<close>.
\<close>

type_synonym Point = "int \<times> int"

definition PtAdd :: "Point \<Rightarrow> Point \<Rightarrow> Point" where
  "PtAdd p q = (fst p + fst q, snd p + snd q)"

definition PtSub :: "Point \<Rightarrow> Point \<Rightarrow> Point" where
  "PtSub p q = (fst p - fst q, snd p - snd q)"

record Rectangle =
  MinPt :: Point
  MaxPt :: Point

text \<open>\<^verbatim>\<open>image.Rect\<close> swaps the coordinates that come in the wrong order.\<close>

definition Rect :: "int \<Rightarrow> int \<Rightarrow> int \<Rightarrow> int \<Rightarrow> Rectangle" where
  "Rect x0 y0 x1 y1 =
     (let (x0, x1) = (if x0 > x1 then (x1, x0) else (x0, x1));
          (y0, y1) = (if y0 > y1 then (y1, y0) else (y0, y1))
      in \<lparr>MinPt = (x0, y0), MaxPt = (x1, y1)\<rparr>)"

definition ZR :: Rectangle where
  "ZR = \<lparr>MinPt = (0, 0), MaxPt = (0, 0)\<rparr>"

definition Dx :: "Rectangle \<Rightarrow> int" where
  "Dx r = fst (MaxPt r) - fst (MinPt r)"

definition Dy :: "Rectangle \<Rightarrow> int" where
  "Dy r = snd (MaxPt r) - snd (MinPt r)"

definition Empty :: "Rectangle \<Rightarrow> bool" where
  "Empty r \<longleftrightarrow> fst (MinPt r) \<ge> fst (MaxPt r) \<or> snd (MinPt r) \<ge> snd (MaxPt r)"

definition In :: "Point \<Rightarrow> Rectangle \<Rightarrow> bool" where
  "In p r \<longleftrightarrow> fst (MinPt r) \<le> fst p \<and> fst p < fst (MaxPt r)
            \<and> snd (MinPt r) \<le> snd p \<and> snd p < snd (MaxPt r)"

definition RectAdd :: "Rectangle \<Rightarrow> Point \<Rightarrow> Rectangle" where
  "RectAdd r p = \<lparr>MinPt = PtAdd (MinPt r) p, MaxPt = PtAdd (MaxPt r) p\<rparr>"

definition Intersect :: "Rectangle \<Rightarrow> Rectangle \<Rightarrow> Rectangle" where
  "Intersect r s =
     (let r' = \<lparr>MinPt = (max (fst (MinPt r)) (fst (MinPt s)), max (snd (MinPt r)) (snd (MinPt s))),
                MaxPt = (min (fst (MaxPt r)) (fst (MaxPt s)), min (snd (MaxPt r)) (snd (MaxPt s)))\<rparr>
      in if Empty r' then ZR else r')"

text \<open>
  A colour is what \<^verbatim>\<open>color.RGBA\<close> holds: four bytes. \<^verbatim>\<open>color.Black\<close> is opaque
  black; the zero value is transparent.
\<close>

datatype Color = RGBA "8 word" "8 word" "8 word" "8 word"

definition Black :: Color where
  "Black = RGBA 0 0 0 255"

definition Transparent :: Color where
  "Transparent = RGBA 0 0 0 0"

text \<open>
  An image, as the program sees one through \<^verbatim>\<open>Bounds()\<close> and the pixels: the bounds and
  the colour, in the RGBA model, at each coordinate. The pixel buffer of an
  \<^verbatim>\<open>*image.RGBA\<close> is indexed here by coordinate instead of by byte offset, and
  integers are unbounded: the limits of allocation are not part of the model.
  \<^verbatim>\<open>At\<close> outside the bounds is the zero colour, as it is for an \<^verbatim>\<open>*image.RGBA\<close> and
  for the images the PNG decoder returns.
\<close>

record Image =
  Bounds :: Rectangle
  Pix :: "Point \<Rightarrow> Color"

definition At :: "Image \<Rightarrow> Point \<Rightarrow> Color" where
  "At m p = (if In p (Bounds m) then Pix m p else Transparent)"

definition NewRGBA :: "Rectangle \<Rightarrow> Image" where
  "NewRGBA r = \<lparr>Bounds = r, Pix = (\<lambda>p. Transparent)\<rparr>"

text \<open>
  \<^verbatim>\<open>image.Uniform\<close>: one colour, with the bounds the package gives it. The drawing
  reads it inside these bounds only.
\<close>

definition Uniform :: "Color \<Rightarrow> Image" where
  "Uniform c = \<lparr>Bounds = \<lparr>MinPt = (- 1000000000, - 1000000000),
                            MaxPt = (1000000000, 1000000000)\<rparr>,
                 Pix = (\<lambda>p. c)\<rparr>"

text \<open>
  \<^verbatim>\<open>draw.Draw(dst, r, src, sp, draw.Src)\<close>. The package first clips \<open>r\<close> to the bounds of
  \<open>dst\<close> and to the bounds of \<open>src\<close> moved to where \<open>sp\<close> lands on \<open>r.Min\<close>, and moves
  \<open>sp\<close> along with the corner of \<open>r\<close>; then every pixel of the clipped rectangle
  takes the colour of the source pixel aligned with it.
\<close>

definition clip :: "Image \<Rightarrow> Rectangle \<Rightarrow> Image \<Rightarrow> Point \<Rightarrow> Rectangle \<times> Point" where
  "clip dst r src sp =
     (let orig = MinPt r;
          r1 = Intersect r (Bounds dst);
          r2 = Intersect r1 (RectAdd (Bounds src) (PtSub orig sp));
          d = PtSub (MinPt r2) orig
      in (r2, PtAdd sp d))"

definition Draw :: "Image \<Rightarrow> Rectangle \<Rightarrow> Image \<Rightarrow> Point \<Rightarrow> Image" where
  "Draw dst r src sp =
     (case clip dst r src sp of
        (r', sp') \<Rightarrow>
          dst\<lparr>Pix := (\<lambda>p. if In p r' then Pix src (PtAdd sp' (PtSub p (MinPt r')))
                          else Pix dst p)\<rparr>)"

section \<open>Formatting\<close>

text \<open>The verbs \<^verbatim>\<open>%d\<close> and \<^verbatim>\<open>%0wd\<close> of \<^verbatim>\<open>fmt.Sprintf\<close> on an integer.\<close>

fun digits :: "nat \<Rightarrow> string" where
  "digits n =
     (if n < 10 then [''0123456789'' ! n]
      else digits (n div 10) @ [''0123456789'' ! (n mod 10)])"

declare digits.simps [simp del]

definition fmt_d :: "int \<Rightarrow> string" where
  "fmt_d n = (if n < 0 then CHR ''-'' # digits (nat (- n)) else digits (nat n))"

definition fmt_0d :: "nat \<Rightarrow> int \<Rightarrow> string" where
  "fmt_0d w n =
     (if n < 0
      then CHR ''-'' # replicate (w - 1 - length (digits (nat (- n)))) CHR ''0''
             @ digits (nat (- n))
      else replicate (w - length (digits (nat n))) CHR ''0'' @ digits (nat n))"

section \<open>The world outside the program\<close>

text \<open>
  What the program does to the outside, in program order. \<open>Log\<close> carries the format
  string of a \<^verbatim>\<open>log.Printf\<close> call (without its quotation marks); \<open>StoreTime\<close> and
  \<open>StoreDate\<close> are the writes to the package variables.
\<close>

datatype error = Error string

datatype event =
    HttpGet string
  | Log string
  | SetTitle string
  | StoreTime Time
  | StoreDate string
  | Create string
  | Encode string Image
  | SetMode
  | SetWallpaper string

record Response =
  StatusCode :: int
  Body :: "error + string"

record LatestImageInfo =
  Date :: string
  File :: string

text \<open>
  What the outside answers during one run of \<^verbatim>\<open>doFetch\<close>: the HTTP server, the
  decoders and the parser of the standard library, the file system, the wallpaper package,
  and the scheduler (the order in which the tile goroutines deliver their results).
  \<open>Body\<close> is what reading the whole response body gives. \<open>tempPath name\<close> is
  \<^verbatim>\<open>filepath.Join(os.TempDir(), name)\<close>.
\<close>

record Env =
  httpGet :: "string \<Rightarrow> error + Response"
  jsonDecode :: "string \<Rightarrow> error + LatestImageInfo"
  timeParse :: "string \<Rightarrow> error + Time"
  pngDecode :: "string \<Rightarrow> error + Image"
  tempPath :: "string \<Rightarrow> string"
  osCreate :: "string \<Rightarrow> error option"
  pngEncode :: "Image \<Rightarrow> error option"
  wallpaperSet :: "string \<Rightarrow> error option"
  schedule :: "nat list"

section \<open>The program\<close>

definition resolution :: int where
  "resolution = 4"

definition tileSize :: int where
  "tileSize = 550"

definition border :: int where
  "border = 180"

record tileResult =
  res_x :: int
  res_y :: int
  res_img :: Image

text \<open>The request target that \<^verbatim>\<open>downloadImage\<close> builds, and the log line of its fallback.\<close>

definition tileURL :: "int \<Rightarrow> int \<Rightarrow> int \<Rightarrow> Time \<Rightarrow> string" where
  "tileURL res i j t =
     (let (year, month, day, hour, minute, second) =
            (if IsZero t
             then (''2026'', ''01'', ''10'', ''02'', ''00'', ''00'')
             else (fmt_0d 4 (Year t), fmt_0d 2 (Month t), fmt_0d 2 (Day t),
                   fmt_0d 2 (Hour t), fmt_0d 2 (Minute t), fmt_0d 2 (Second t)));
          timeStr = hour @ minute @ second
      in ''https://anzu.shinshu-u.ac.jp/himawari/img/D531106/'' @ fmt_d res @ ''d/550/''
         @ year @ ''/'' @ month @ ''/'' @ day @ ''/'' @ timeStr
         @ ''_'' @ fmt_d i @ ''_'' @ fmt_d j @ ''.png'')"

definition downloadImage :: "Env \<Rightarrow> int \<Rightarrow> int \<Rightarrow> int \<Rightarrow> Time \<Rightarrow> Image \<times> event list" where
  "downloadImage env res i j t =
     (let fallback = (if IsZero t
                      then [Log ''downloadImage: received zero time, using fallback date'']
                      else []);
          url = tileURL res i j t
      in case httpGet env url of
           Inl err \<Rightarrow>
             (NewRGBA (Rect 0 0 tileSize tileSize),
              fallback @ [HttpGet url, Log ''downloadImage: http get error for %s: %v''])
         | Inr resp \<Rightarrow>
             if StatusCode resp \<noteq> 200
             then (NewRGBA (Rect 0 0 tileSize tileSize),
                   fallback @ [HttpGet url, Log ''downloadImage: non-200 status %d for %s''])
             else (case Body resp of
                     Inl err \<Rightarrow>
                       (NewRGBA (Rect 0 0 tileSize tileSize),
                        fallback @ [HttpGet url, Log ''downloadImage: read body error for %s: %v''])
                   | Inr buf \<Rightarrow>
                       (case pngDecode env buf of
                          Inl err \<Rightarrow>
                            (NewRGBA (Rect 0 0 tileSize tileSize),
                             fallback @ [HttpGet url,
                                         Log ''downloadImage: png decode error for %s: %v''])
                        | Inr img \<Rightarrow> (img, fallback @ [HttpGet url]))))"

definition setWallpaper :: "Env \<Rightarrow> string \<Rightarrow> event list" where
  "setWallpaper env fullImagePath =
     [SetMode, SetWallpaper fullImagePath]
     @ (case wallpaperSet env fullImagePath of
          Some err \<Rightarrow> [Log ''setWallpaper error: %v'']
        | None \<Rightarrow> [])"

text \<open>
  The dispatch loops of \<^verbatim>\<open>processWallpaper\<close> start one goroutine per \<open>(i, j)\<close>, in this
  order.
\<close>

definition gridCoords :: "int \<Rightarrow> (int \<times> int) list" where
  "gridCoords gridSize =
     concat (map (\<lambda>i. map (\<lambda>j. (i, j)) [0..gridSize - 1]) [0..gridSize - 1])"

text \<open>
  The results channel has room for every result, and it is closed once the wait group has
  counted every goroutine done: the receiving loop gets each result once, in an order the
  scheduler decides. The scheduler is a list of choices: each picks one of the results
  not yet delivered; when the choices run out the rest arrives in dispatch order.
\<close>

fun receive :: "nat list \<Rightarrow> 'a list \<Rightarrow> 'a list" where
  "receive ks [] = []"
| "receive [] xs = xs"
| "receive (k # ks) xs =
     (let n = k mod length xs in xs ! n # receive ks (take n xs @ drop (Suc n) xs))"

text \<open>
  The destination rectangle of the tile at \<open>(x, y)\<close>, and the drawing loop with its
  counter \<^verbatim>\<open>count\<close>.
\<close>

definition cell :: "int \<Rightarrow> int \<Rightarrow> Rectangle" where
  "cell x y = Rect (x * tileSize) (y * tileSize) ((x + 1) * tileSize) ((y + 1) * tileSize)"

definition drawTile :: "Image \<Rightarrow> tileResult \<Rightarrow> Image" where
  "drawTile canvas res =
     (let dest = cell (res_x res) (res_y res)
      in Draw canvas dest (res_img res) (0, 0))"

fun drawLoop :: "Image \<Rightarrow> int \<Rightarrow> tileResult list \<Rightarrow> Image \<times> int" where
  "drawLoop canvas cnt [] = (canvas, cnt)"
| "drawLoop canvas cnt (res # results) = drawLoop (drawTile canvas res) (cnt + 1) results"

text \<open>
  The first half of \<^verbatim>\<open>processWallpaper\<close>, up to the log line that reports the count: the
  canvas, the number of tiles drawn, and the events of the goroutines (taken in the order
  of delivery).
\<close>

definition goroutine :: "Env \<Rightarrow> Time \<Rightarrow> int \<times> int \<Rightarrow> tileResult \<times> event list" where
  "goroutine env t c =
     (case c of (x, y) \<Rightarrow>
        (case downloadImage env resolution x y t of
           (img, evs) \<Rightarrow> (\<lparr>res_x = x, res_y = y, res_img = img\<rparr>, evs)))"

definition assemble :: "Env \<Rightarrow> Time \<Rightarrow> (Image \<times> int) \<times> event list" where
  "assemble env t =
     (let gridSize = resolution;
          canvas = NewRGBA (Rect 0 0 (gridSize * tileSize) (gridSize * tileSize));
          results = map (goroutine env t) (receive (schedule env) (gridCoords gridSize))
      in (drawLoop canvas 0 (map fst results),
          [Log ''Start parallel download image''] @ concat (map snd results)
          @ [Log ''End download image, processed %d tiles, took %d ms'']))"

text \<open>The border step of \<^verbatim>\<open>processWallpaper\<close>, for a border of \<open>b\<close> pixels.\<close>

definition addBorder :: "int \<Rightarrow> Image \<Rightarrow> Image" where
  "addBorder b canvas =
     (let srcW = Dx (Bounds canvas);
          srcH = Dy (Bounds canvas);
          dstW = srcW + b * 2;
          dstH = srcH + b * 2;
          bordered = NewRGBA (Rect 0 0 dstW dstH);
          bordered = Draw bordered (Bounds bordered) (Uniform Black) (0, 0);
          bordered = Draw bordered (Rect b b (b + srcW) (b + srcH)) canvas (0, 0)
      in bordered)"

definition processWallpaper :: "Env \<Rightarrow> Time \<Rightarrow> string \<times> event list" where
  "processWallpaper env t =
     (case assemble env t of
        ((canvas, cnt), evs) \<Rightarrow>
          (let bordered = addBorder border canvas;
               fullImagePath = tempPath env ''earth_wallpaper_full.png''
           in case osCreate env fullImagePath of
                Some err \<Rightarrow>
                  ([], evs @ [Create fullImagePath,
                              Log ''processWallpaper: failed to create file: %v''])
              | None \<Rightarrow>
                  (fullImagePath,
                   evs @ [Create fullImagePath, Encode fullImagePath bordered]
                   @ (case pngEncode env bordered of
                        Some err \<Rightarrow> [Log ''processWallpaper: failed to encode png: %v'']
                      | None \<Rightarrow> [])
                   @ [Log ''Wallpaper save to: %s''])))"

definition latestURL :: string where
  "latestURL = ''https://jh170034-1.kudpc.kyoto-u.ac.jp/himawari/img/D531106/latest.json''"

text \<open>
  \<^verbatim>\<open>latestImage\<close>: the JSON decoder reads the body of the response, so an error of the
  read is an error of the decoding. The status of the response is not looked at.
\<close>

definition latestImage :: "Env \<Rightarrow> (error + string) \<times> event list" where
  "latestImage env =
     (case httpGet env latestURL of
        Inl err \<Rightarrow> (Inl err, [HttpGet latestURL])
      | Inr resp \<Rightarrow>
          (case Body resp of
             Inl err \<Rightarrow> (Inl err, [HttpGet latestURL])
           | Inr buf \<Rightarrow>
               (case jsonDecode env buf of
                  Inl err \<Rightarrow> (Inl err, [HttpGet latestURL])
                | Inr info \<Rightarrow> (Inr (Date info), [HttpGet latestURL, Log ''Latest image date: %s'']))))"

text \<open>One run of the closure \<^verbatim>\<open>doFetch\<close> of \<^verbatim>\<open>startFetcher\<close>.\<close>

definition doFetch :: "Env \<Rightarrow> State \<Rightarrow> State \<times> event list" where
  "doFetch env s =
     (case latestImage env of
        (Inl err, ev) \<Rightarrow>
          (s, ev @ [SetTitle ''Date: Error fetching'', Log ''startFetcher: latestImage error: %v''])
      | (Inr raw, ev) \<Rightarrow>
          (case timeParse env raw of
             Inl perr \<Rightarrow>
               (s\<lparr>latestImageDate := raw\<rparr>,
                ev @ [StoreDate raw, SetTitle (''Date: '' @ raw),
                      Log ''startFetcher: failed to parse date %s: %v''])
           | Inr parsed \<Rightarrow>
               (case claim s raw parsed of
                  (True, s') \<Rightarrow>
                    (case processWallpaper env parsed of
                       (fullPath, evp) \<Rightarrow>
                         (s', ev @ [StoreTime parsed, StoreDate raw, SetTitle (''Date: '' @ raw)]
                              @ evp
                              @ (if fullPath \<noteq> [] then setWallpaper env fullPath else [])))
                | (False, s') \<Rightarrow> (s', ev @ [SetTitle (''Date: '' @ raw)]))))"

text \<open>
  \<^verbatim>\<open>startFetcher\<close>: one run of \<^verbatim>\<open>doFetch\<close> at once and one per tick until the stop
  signal; the list holds what the outside answers at each run.
\<close>

fun polls :: "State \<Rightarrow> Env list \<Rightarrow> State \<times> event list" where
  "polls s [] = (s, [])"
| "polls s (env # envs) =
     (case doFetch env s of
        (s', evs) \<Rightarrow> (case polls s' envs of (s'', evs') \<Rightarrow> (s'', evs @ evs')))"

definition startFetcher :: "State \<Rightarrow> Env \<Rightarrow> Env list \<Rightarrow> State \<times> event list" where
  "startFetcher s env ticks = polls s (env # ticks)"

section \<open>Reading results and traces\<close>

text \<open>The grid coordinate a tile result carries, and the requests a trace holds.\<close>

definition coord :: "tileResult \<Rightarrow> int \<times> int" where
  "coord r = (res_x r, res_y r)"

fun httpGets :: "event list \<Rightarrow> string list" where
  "httpGets [] = []"
| "httpGets (HttpGet u # evs) = u # httpGets evs"
| "httpGets (e # evs) = httpGets evs"

text \<open>An image of one colour, \<open>w\<close> by \<open>h\<close> pixels, with its corner at the origin.\<close>

definition solid :: "int \<Rightarrow> int \<Rightarrow> Color \<Rightarrow> Image" where
  "solid w h c = \<lparr>Bounds = Rect 0 0 w h, Pix = (\<lambda>p. c)\<rparr>"

text \<open>
  A sample of the outside: the metadata source reports 2026-01-11 16:10:00, the tile at
  \<open>(0, 0)\<close> cannot be fetched, every other tile decodes to an opaque black square, and
  the file system and the wallpaper package succeed.
\<close>

definition world :: Env where
  "world =
     \<lparr>httpGet = (\<lambda>u. if u = tileURL 4 0 0 (utc 2026 1 11 16 10 0)
                       then Inl (Error ''connection refused'')
                       else Inr \<lparr>StatusCode = 200, Body = Inr u\<rparr>),
      jsonDecode = (\<lambda>b. Inr \<lparr>Date = ''2026-01-11 16:10:00'', File = ''latest.png''\<rparr>),
      timeParse = (\<lambda>raw. if raw = ''2026-01-11 16:10:00'' then Inr (utc 2026 1 11 16 10 0)
                          else Inl (Error ''cannot parse'')),
      pngDecode = (\<lambda>b. Inr (solid 550 550 Black)),
      tempPath = (\<lambda>name. ''/tmp/'' @ name),
      osCreate = (\<lambda>path. None),
      pngEncode = (\<lambda>m. None),
      wallpaperSet = (\<lambda>path. None),
      schedule = [5, 3, 0]\<rparr>"

text \<open>The events that write the package variables, and the calls into the wallpaper package.\<close>

fun isStore :: "event \<Rightarrow> bool" where
  "isStore (StoreTime t) = True"
| "isStore (StoreDate d) = True"
| "isStore e = False"

fun isSink :: "event \<Rightarrow> bool" where
  "isSink SetMode = True"
| "isSink (SetWallpaper p) = True"
| "isSink e = False"

text \<open>
  Variations of the sample: a date that does not parse; the zero instant as the reported
  date; a file that cannot be created; an encoder that fails.
\<close>

definition worldUnparsable :: Env where
  "worldUnparsable = world\<lparr>jsonDecode := (\<lambda>b. Inr \<lparr>Date = ''soon'', File = []\<rparr>)\<rparr>"

definition worldZero :: Env where
  "worldZero = world\<lparr>jsonDecode := (\<lambda>b. Inr \<lparr>Date = ''0001-01-01 00:00:00'', File = []\<rparr>),
                      timeParse := (\<lambda>raw. if raw = ''0001-01-01 00:00:00'' then Inr zeroTime
                                          else Inl (Error ''cannot parse''))\<rparr>"

definition worldCreateFails :: Env where
  "worldCreateFails = world\<lparr>osCreate := (\<lambda>path. Some (Error ''permission denied''))\<rparr>"

definition worldEncodeFails :: Env where
  "worldEncodeFails = world\<lparr>pngEncode := (\<lambda>m. Some (Error ''short write''))\<rparr>"

section \<open>Properties of the staleness gate\<close>

lemma claim_fst:
  "fst (claim s raw c) \<longleftrightarrow> IsZero (latestImageTime s) \<or> After c (latestImageTime s)"
  by (simp add: claim_def Let_def)

lemma claim_snd_True:
  "fst (claim s raw c) \<Longrightarrow>
   snd (claim s raw c) = s\<lparr>latestImageTime := c, latestImageDate := raw\<rparr>"
  by (auto simp: claim_def Let_def)

lemma claim_snd_False: "\<not> fst (claim s raw c) \<Longrightarrow> snd (claim s raw c) = s"
  by (auto simp: claim_def Let_def)

lemma latest_of_single: "latest_of c [c]"
  by (simp add: latest_of_def After_def)

lemma latest_of_Cons: "latest_of t ts \<Longrightarrow> \<not> After c t \<Longrightarrow> latest_of t (c # ts)"
  by (simp add: latest_of_def)

lemma latest_of_after_claim:
  assumes b: "\<not> After c (latestImageTime s')"
    and e: "ts = [] \<longrightarrow> latestImageTime s' = c"
    and l: "ts \<noteq> [] \<longrightarrow> latest_of (latestImageTime s') ts"
  shows "latest_of (latestImageTime s') (c # ts)"
proof (cases "ts = []")
  case True
  with e show ?thesis by (simp add: latest_of_single)
next
  case False
  with l b show ?thesis by (simp add: latest_of_Cons)
qed

text \<open>
  Once the stored time is set and no candidate is the zero instant, the stored time stays
  set, never moves back, and is the latest of the candidates claimed since.
\<close>

lemma claims_from_set:
  assumes "\<forall>x\<in>set cs. \<not> IsZero (snd x)" and "\<not> IsZero (latestImageTime s)"
  shows "\<not> IsZero (latestImageTime (snd (claims s cs)))
       \<and> \<not> After (latestImageTime s) (latestImageTime (snd (claims s cs)))
       \<and> (fst (claims s cs) = [] \<longrightarrow> snd (claims s cs) = s)
       \<and> (fst (claims s cs) \<noteq> [] \<longrightarrow>
            latest_of (latestImageTime (snd (claims s cs))) (fst (claims s cs)))"
  using assms
proof (induction cs arbitrary: s)
  case Nil
  then show ?case by (simp add: After_def)
next
  case (Cons x cs)
  obtain raw c where x: "x = (raw, c)" by (cases x)
  from Cons.prems x have cnz: "\<not> IsZero c" and rest: "\<forall>x\<in>set cs. \<not> IsZero (snd x)"
    by simp_all
  show ?case
  proof (cases "After c (latestImageTime s)")
    case True
    let ?s1 = "s\<lparr>latestImageTime := c, latestImageDate := raw\<rparr>"
    have st: "claim s raw c = (True, ?s1)"
      using True by (simp add: claim_def Let_def)
    have nz1: "\<not> IsZero (latestImageTime ?s1)" using cnz by simp
    note IH = Cons.IH [OF rest nz1]
    obtain ts s' where r: "claims ?s1 cs = (ts, s')" by (cases "claims ?s1 cs")
    have full: "claims s (x # cs) = (c # ts, s')"
      using st r x by simp
    from IH r have a: "\<not> IsZero (latestImageTime s')"
      and b: "\<not> After c (latestImageTime s')"
      and e: "ts = [] \<longrightarrow> s' = ?s1"
      and l: "ts \<noteq> [] \<longrightarrow> latest_of (latestImageTime s') ts"
      by simp_all
    from e have e': "ts = [] \<longrightarrow> latestImageTime s' = c" by auto
    have "latest_of (latestImageTime s') (c # ts)"
      by (rule latest_of_after_claim [OF b e' l])
    moreover have "\<not> After (latestImageTime s) (latestImageTime s')"
      using True b by (auto simp: After_def)
    ultimately show ?thesis using full a by simp
  next
    case False
    have st: "claim s raw c = (False, s)"
      using False Cons.prems(2) by (simp add: claim_def Let_def)
    have full: "claims s (x # cs) = claims s cs"
      using st x by simp
    show ?thesis unfolding full by (rule Cons.IH [OF rest Cons.prems(2)])
  qed
qed

lemma claims_latest:
  assumes "\<forall>x\<in>set cs. \<not> IsZero (snd x)"
  shows "(fst (claims s cs) = [] \<longrightarrow> snd (claims s cs) = s)
       \<and> (fst (claims s cs) \<noteq> [] \<longrightarrow>
            latest_of (latestImageTime (snd (claims s cs))) (fst (claims s cs)))"
proof (cases "IsZero (latestImageTime s)")
  case False
  with claims_from_set [OF assms] show ?thesis by blast
next
  case True
  show ?thesis
  proof (cases cs)
    case Nil
    then show ?thesis by simp
  next
    case (Cons x cs')
    obtain raw c where x: "x = (raw, c)" by (cases x)
    let ?s1 = "s\<lparr>latestImageTime := c, latestImageDate := raw\<rparr>"
    from assms Cons x have cnz: "\<not> IsZero c" and rest: "\<forall>x\<in>set cs'. \<not> IsZero (snd x)"
      by simp_all
    have st: "claim s raw c = (True, ?s1)"
      using True by (simp add: claim_def Let_def)
    have nz1: "\<not> IsZero (latestImageTime ?s1)" using cnz by simp
    note A = claims_from_set [OF rest nz1]
    obtain ts s' where r: "claims ?s1 cs' = (ts, s')" by (cases "claims ?s1 cs'")
    have full: "claims s cs = (c # ts, s')"
      using st r x Cons by simp
    from A r have b: "\<not> After c (latestImageTime s')"
      and e: "ts = [] \<longrightarrow> s' = ?s1"
      and l: "ts \<noteq> [] \<longrightarrow> latest_of (latestImageTime s') ts"
      by simp_all
    from e have e': "ts = [] \<longrightarrow> latestImageTime s' = c" by auto
    have "latest_of (latestImageTime s') (c # ts)"
      by (rule latest_of_after_claim [OF b e' l])
    then show ?thesis using full by simp
  qed
qed

text \<open>
  C1, as stated, fails: the code uses the zero instant as the mark of an unset state, and
  the parser accepts the year 0000 and the zero instant itself. Claiming
  0000-06-01, then the zero instant (later, so claimed, and the state reads as unset again),
  then 0000-06-01 once more (claimed, since the state reads as unset) leaves the stored
  time at 0000-06-01, which is earlier than the claimed zero instant.
\<close>

theorem staleness_gate_latest_counterexample:
  "\<not> latest_of
       (latestImageTime (snd (claims initState
          [(''0000-06-01 00:00:00'', utc 0 6 1 0 0 0),
           (''0001-01-01 00:00:00'', zeroTime),
           (''0000-06-01 00:00:00'', utc 0 6 1 0 0 0)])))
       (fst (claims initState
          [(''0000-06-01 00:00:00'', utc 0 6 1 0 0 0),
           (''0001-01-01 00:00:00'', zeroTime),
           (''0000-06-01 00:00:00'', utc 0 6 1 0 0 0)]))"
  by (simp add: claim_def initState_def IsZero_def After_def instant_def zeroTime_def
      utc_def latest_of_def)

text \<open>
  C1, amended: a claim succeeds, and then stores the candidate, if and only if the stored
  time is the zero instant (unset) or the candidate is strictly later than it; a failed
  claim leaves the state as it was, and with a stored time that is set an equal or earlier
  candidate fails. For every sequence of candidates none of which is the zero instant,
  from any state, the stored time after the sequence is the latest of the claimed values
  (and the state is unchanged when nothing was claimed).
\<close>

theorem staleness_gate_claims:
  "(fst (claim s raw c) \<longleftrightarrow> IsZero (latestImageTime s) \<or> After c (latestImageTime s))
   \<and> (fst (claim s raw c) \<longrightarrow>
        snd (claim s raw c) = s\<lparr>latestImageTime := c, latestImageDate := raw\<rparr>)
   \<and> (\<not> fst (claim s raw c) \<longrightarrow> snd (claim s raw c) = s)
   \<and> (\<not> IsZero (latestImageTime s) \<and> \<not> After c (latestImageTime s) \<longrightarrow>
        claim s raw c = (False, s))
   \<and> ((\<forall>x\<in>set cs. \<not> IsZero (snd x)) \<longrightarrow>
        (fst (claims s0 cs) = [] \<longrightarrow> snd (claims s0 cs) = s0)
        \<and> (fst (claims s0 cs) \<noteq> [] \<longrightarrow>
             latest_of (latestImageTime (snd (claims s0 cs))) (fst (claims s0 cs))))"
proof -
  have "\<not> IsZero (latestImageTime s) \<and> \<not> After c (latestImageTime s) \<longrightarrow>
        claim s raw c = (False, s)"
    by (simp add: claim_def Let_def)
  then show ?thesis
    using claim_fst [of s raw c] claim_snd_True [of s raw c] claim_snd_False [of s raw c]
      claims_latest [of cs s0]
    by blast
qed

theorem staleness_gate_claims_witness:
  "list_all (\<lambda>x. \<not> IsZero (snd x))
     [(''2026-01-11 16:10:00'', utc 2026 1 11 16 10 0),
      (''2026-01-11 16:10:00'', utc 2026 1 11 16 10 0),
      (''2026-01-11 16:00:00'', utc 2026 1 11 16 0 0),
      (''2026-01-11 16:20:00'', utc 2026 1 11 16 20 0)]
   \<and> fst (claim initState ''2026-01-11 16:10:00'' (utc 2026 1 11 16 10 0))
   \<and> \<not> fst (claim \<lparr>latestImageDate = ''2026-01-11 16:10:00'',
                    latestImageTime = utc 2026 1 11 16 10 0\<rparr>
               ''2026-01-11 16:10:00'' (utc 2026 1 11 16 10 0))
   \<and> fst (claims initState
        [(''2026-01-11 16:10:00'', utc 2026 1 11 16 10 0),
         (''2026-01-11 16:10:00'', utc 2026 1 11 16 10 0),
         (''2026-01-11 16:00:00'', utc 2026 1 11 16 0 0),
         (''2026-01-11 16:20:00'', utc 2026 1 11 16 20 0)])
       = [utc 2026 1 11 16 10 0, utc 2026 1 11 16 20 0]
   \<and> latest_of
        (latestImageTime (snd (claims initState
          [(''2026-01-11 16:10:00'', utc 2026 1 11 16 10 0),
           (''2026-01-11 16:10:00'', utc 2026 1 11 16 10 0),
           (''2026-01-11 16:00:00'', utc 2026 1 11 16 0 0),
           (''2026-01-11 16:20:00'', utc 2026 1 11 16 20 0)])))
        (fst (claims initState
          [(''2026-01-11 16:10:00'', utc 2026 1 11 16 10 0),
           (''2026-01-11 16:10:00'', utc 2026 1 11 16 10 0),
           (''2026-01-11 16:00:00'', utc 2026 1 11 16 0 0),
           (''2026-01-11 16:20:00'', utc 2026 1 11 16 20 0)]))"
  using staleness_gate_claims
    [of initState "''2026-01-11 16:10:00''" "utc 2026 1 11 16 10 0"
        "[(''2026-01-11 16:10:00'', utc 2026 1 11 16 10 0),
          (''2026-01-11 16:10:00'', utc 2026 1 11 16 10 0),
          (''2026-01-11 16:00:00'', utc 2026 1 11 16 0 0),
          (''2026-01-11 16:20:00'', utc 2026 1 11 16 20 0)]" initState]
    staleness_gate_claims
    [of "\<lparr>latestImageDate = ''2026-01-11 16:10:00'',
            latestImageTime = utc 2026 1 11 16 10 0\<rparr>"
        "''2026-01-11 16:10:00''" "utc 2026 1 11 16 10 0" "[]" initState]
  by (simp add: claim_def initState_def IsZero_def After_def instant_def zeroTime_def
      utc_def latest_of_def)

section \<open>Drawing\<close>

lemma In_Intersect: "In p (Intersect r s) \<longleftrightarrow> In p r \<and> In p s"
  by (auto simp: Intersect_def Let_def In_def Empty_def ZR_def)

lemma In_RectAdd: "In p (RectAdd r d) \<longleftrightarrow> In (PtSub p d) r"
  by (auto simp: RectAdd_def In_def PtSub_def PtAdd_def)

lemma PtSub_PtSub: "PtSub p (PtSub orig sp) = PtAdd sp (PtSub p orig)"
  by (simp add: PtSub_def PtAdd_def)

lemma clip_In:
  "In p (fst (clip dst r src sp)) \<longleftrightarrow>
     In p r \<and> In p (Bounds dst) \<and> In (PtAdd sp (PtSub p (MinPt r))) (Bounds src)"
  by (simp add: clip_def Let_def In_Intersect In_RectAdd PtSub_PtSub)

lemma clip_src:
  "PtAdd (snd (clip dst r src sp)) (PtSub p (MinPt (fst (clip dst r src sp))))
   = PtAdd sp (PtSub p (MinPt r))"
  by (simp add: clip_def Let_def PtSub_def PtAdd_def)

lemma Draw_Bounds: "Bounds (Draw dst r src sp) = Bounds dst"
  by (simp add: Draw_def split: prod.splits)

lemma Draw_Pix:
  "Pix (Draw dst r src sp) p =
     (if In p r \<and> In p (Bounds dst) \<and> In (PtAdd sp (PtSub p (MinPt r))) (Bounds src)
      then Pix src (PtAdd sp (PtSub p (MinPt r))) else Pix dst p)"
proof -
  obtain r' sp' where c: "clip dst r src sp = (r', sp')" by (cases "clip dst r src sp")
  from clip_In [of p dst r src sp] c
  have i: "In p r' \<longleftrightarrow> In p r \<and> In p (Bounds dst) \<and> In (PtAdd sp (PtSub p (MinPt r))) (Bounds src)"
    by simp
  from clip_src [of dst r src sp p] c
  have s: "PtAdd sp' (PtSub p (MinPt r')) = PtAdd sp (PtSub p (MinPt r))" by simp
  show ?thesis using i s by (simp add: Draw_def c)
qed

lemma cell_eq:
  "cell x y = \<lparr>MinPt = (x * 550, y * 550), MaxPt = ((x + 1) * 550, (y + 1) * 550)\<rparr>"
  by (simp add: cell_def Rect_def tileSize_def)

lemma In_cell:
  "In p (cell x y) \<longleftrightarrow>
     x * 550 \<le> fst p \<and> fst p < (x + 1) * 550 \<and> y * 550 \<le> snd p \<and> snd p < (y + 1) * 550"
  by (simp add: cell_eq In_def)

lemma cell_disjoint:
  assumes "In p (cell x y)" and "In p (cell x' y')"
  shows "x = x' \<and> y = y'"
proof -
  from assms have "x * 550 < (x' + 1) * 550" and "x' * 550 < (x + 1) * 550"
    and "y * 550 < (y' + 1) * 550" and "y' * 550 < (y + 1) * 550"
    unfolding In_cell by linarith+
  then have "x < x' + 1" and "x' < x + 1" and "y < y' + 1" and "y' < y + 1"
    by simp_all
  then show ?thesis by simp
qed

lemma PtAdd_zero: "PtAdd (0, 0) q = q"
  by (simp add: PtAdd_def)

lemma drawTile_Bounds: "Bounds (drawTile c r) = Bounds c"
  by (simp add: drawTile_def Draw_Bounds)

lemma drawTile_Pix:
  "Pix (drawTile c r) p =
     (if In p (cell (res_x r) (res_y r)) \<and> In p (Bounds c)
         \<and> In (PtSub p (MinPt (cell (res_x r) (res_y r)))) (Bounds (res_img r))
      then Pix (res_img r) (PtSub p (MinPt (cell (res_x r) (res_y r)))) else Pix c p)"
  by (simp add: drawTile_def Draw_Pix PtAdd_zero)

lemma drawTile_frame: "\<not> In p (cell (res_x r) (res_y r)) \<Longrightarrow> Pix (drawTile c r) p = Pix c p"
  by (simp add: drawTile_Pix)

lemma drawLoop_Bounds: "Bounds (fst (drawLoop c n rs)) = Bounds c"
  by (induction rs arbitrary: c n) (simp_all add: drawTile_Bounds)

lemma drawLoop_count: "snd (drawLoop c n rs) = n + int (length rs)"
  by (induction rs arbitrary: c n) simp_all

lemma drawLoop_outside:
  "\<forall>r\<in>set rs. \<not> In p (cell (res_x r) (res_y r)) \<Longrightarrow> Pix (fst (drawLoop c n rs)) p = Pix c p"
  by (induction rs arbitrary: c n) (simp_all add: drawTile_frame)

lemma other_cell:
  assumes "In p (cell (res_x r) (res_y r))" and "coord r' \<noteq> coord r"
  shows "\<not> In p (cell (res_x r') (res_y r'))"
  using assms cell_disjoint [of p "res_x r" "res_y r" "res_x r'" "res_y r'"]
  by (auto simp: coord_def)

lemma drawLoop_Pix:
  assumes "distinct (map coord rs)" and "r \<in> set rs" and "In p (cell (res_x r) (res_y r))"
  shows "Pix (fst (drawLoop c n rs)) p = Pix (drawTile c r) p"
  using assms
proof (induction rs arbitrary: c n)
  case Nil
  then show ?case by simp
next
  case (Cons a rs)
  show ?case
  proof (cases "a = r")
    case True
    have "\<forall>r'\<in>set rs. \<not> In p (cell (res_x r') (res_y r'))"
    proof
      fix r' assume "r' \<in> set rs"
      then have "coord r' \<in> coord ` set rs" by (rule imageI)
      moreover from Cons.prems(1) True have "coord r \<notin> coord ` set rs" by simp
      ultimately have "coord r' \<noteq> coord r" by auto
      with Cons.prems(3) show "\<not> In p (cell (res_x r') (res_y r'))" by (rule other_cell)
    qed
    then have "Pix (fst (drawLoop (drawTile c a) (n + 1) rs)) p = Pix (drawTile c a) p"
      by (rule drawLoop_outside)
    with True show ?thesis by simp
  next
    case False
    with Cons.prems have r: "r \<in> set rs" and d: "distinct (map coord rs)" by auto
    from Cons.prems(1) r have "coord a \<noteq> coord r" by auto
    with Cons.prems(3) have na: "\<not> In p (cell (res_x a) (res_y a))" by (rule other_cell)
    have "Pix (fst (drawLoop (drawTile c a) (n + 1) rs)) p = Pix (drawTile (drawTile c a) r) p"
      by (rule Cons.IH [OF d r Cons.prems(3)])
    also have "\<dots> = Pix (drawTile c r) p"
      using na by (simp add: drawTile_Pix [of _ r] drawTile_Bounds drawTile_frame)
    finally show ?thesis by simp
  qed
qed

lemma drawLoop_perm:
  assumes d: "distinct (map coord rs)" and m: "mset rs' = mset rs"
  shows "drawLoop c n rs' = drawLoop c n rs"
proof -
  from m have s: "set rs' = set rs" by (rule mset_eq_setD)
  from m have l: "length rs' = length rs" by (rule mset_eq_length)
  from m have "mset (map coord rs') = mset (map coord rs)" by simp
  with d have d': "distinct (map coord rs')" by (metis distinct_count_atmost_1 set_mset_mset mset_eq_setD)
  have "Pix (fst (drawLoop c n rs')) p = Pix (fst (drawLoop c n rs)) p" for p
  proof (cases "\<exists>r\<in>set rs. In p (cell (res_x r) (res_y r))")
    case True
    then obtain r where r: "r \<in> set rs" and i: "In p (cell (res_x r) (res_y r))" by blast
    from r s have r': "r \<in> set rs'" by simp
    show ?thesis
      by (simp add: drawLoop_Pix [OF d r i] drawLoop_Pix [OF d' r' i])
  next
    case False
    then have a: "\<forall>r\<in>set rs. \<not> In p (cell (res_x r) (res_y r))" by blast
    with s have b: "\<forall>r\<in>set rs'. \<not> In p (cell (res_x r) (res_y r))" by simp
    show ?thesis by (simp add: drawLoop_outside [OF a] drawLoop_outside [OF b])
  qed
  then have "Pix (fst (drawLoop c n rs')) = Pix (fst (drawLoop c n rs))" by (rule ext)
  then have "fst (drawLoop c n rs') = fst (drawLoop c n rs)"
    by (simp add: Image.equality drawLoop_Bounds)
  moreover have "snd (drawLoop c n rs') = snd (drawLoop c n rs)"
    by (simp add: drawLoop_count l)
  ultimately show ?thesis by (rule prod_eqI)
qed

lemma mset_receive: "mset (receive ks xs) = mset xs"
proof (induction ks xs rule: receive.induct)
  case (3 k ks v va)
  let ?xs = "v # va"
  let ?n = "k mod length ?xs"
  have n: "?n < length ?xs" by simp
  have "mset ?xs = mset (take ?n ?xs @ ?xs ! ?n # drop (Suc ?n) ?xs)"
    using id_take_nth_drop [OF n] by simp
  with 3 show ?case by (simp add: Let_def)
qed simp_all

lemma gridCoords_resolution:
  "gridCoords resolution =
     [(0,0),(0,1),(0,2),(0,3),(1,0),(1,1),(1,2),(1,3),(2,0),(2,1),(2,2),(2,3),(3,0),(3,1),(3,2),(3,3)]"
  by (simp add: gridCoords_def resolution_def upto.simps)

section \<open>Assembling the grid\<close>

lemma httpGets_append: "httpGets (xs @ ys) = httpGets xs @ httpGets ys"
  by (induction xs rule: httpGets.induct) simp_all

lemma httpGets_downloadImage:
  "httpGets (snd (downloadImage env res i j t)) = [tileURL res i j t]"
  by (simp add: downloadImage_def Let_def httpGets_append split: sum.splits)

lemma httpGets_goroutine:
  "httpGets (snd (goroutine env t c)) = [tileURL resolution (fst c) (snd c) t]"
proof -
  obtain x y where c: "c = (x, y)" by (cases c)
  obtain im evs where d: "downloadImage env resolution x y t = (im, evs)"
    by (cases "downloadImage env resolution x y t")
  from httpGets_downloadImage [of env resolution x y t] d
  show ?thesis by (simp add: goroutine_def c)
qed

lemma httpGets_concat:
  "httpGets (concat (map (\<lambda>c. snd (goroutine env t c)) cs))
   = map (\<lambda>c. tileURL resolution (fst c) (snd c) t) cs"
  by (induction cs) (simp_all add: httpGets_append httpGets_goroutine)

lemma coord_goroutine: "coord (fst (goroutine env t c)) = c"
  by (simp add: goroutine_def coord_def split: prod.splits)

lemma res_img_goroutine:
  "res_img (fst (goroutine env t (x, y))) = fst (downloadImage env resolution x y t)"
  by (simp add: goroutine_def split: prod.splits)

lemma map_coord_goroutine: "map coord (map (\<lambda>c. fst (goroutine env t c)) cs) = cs"
  by (induction cs) (simp_all add: coord_goroutine)

lemma distinct_gridCoords: "distinct (gridCoords resolution)"
  by (simp add: gridCoords_resolution)

lemma length_gridCoords: "length (gridCoords resolution) = 16"
  by (simp add: gridCoords_resolution)

lemma set_gridCoords: "set (gridCoords n) = {0..n - 1} \<times> {0..n - 1}"
  by (auto simp: gridCoords_def)

lemma distinct_receive: "distinct xs \<Longrightarrow> distinct (receive ks xs)"
  by (metis mset_receive mset_eq_imp_distinct_iff)

lemma assemble_events:
  "mset (httpGets (snd (assemble env t)))
   = mset (map (\<lambda>c. tileURL resolution (fst c) (snd c) t) (gridCoords resolution))"
proof -
  have "httpGets (snd (assemble env t))
        = map (\<lambda>c. tileURL resolution (fst c) (snd c) t)
            (receive (schedule env) (gridCoords resolution))"
    by (simp add: assemble_def Let_def httpGets_append httpGets_concat comp_def)
  then show ?thesis by (simp add: mset_receive)
qed

lemma assemble_count: "snd (fst (assemble env t)) = 16"
  by (simp add: assemble_def Let_def drawLoop_count length_gridCoords
      mset_eq_length [OF mset_receive])

lemma assemble_Bounds:
  "Bounds (fst (fst (assemble env t))) = \<lparr>MinPt = (0, 0), MaxPt = (2200, 2200)\<rparr>"
  by (simp add: assemble_def Let_def drawLoop_Bounds NewRGBA_def Rect_def resolution_def
      tileSize_def)

lemma div_cell: "(a::int) div 550 * 550 \<le> a \<and> a < (a div 550 + 1) * 550"
proof -
  have "a = a div 550 * 550 + a mod 550" by simp
  moreover have "0 \<le> a mod 550" and "a mod 550 < 550" by simp_all
  moreover have "(a div 550 + 1) * 550 = a div 550 * 550 + 550" by (simp add: algebra_simps)
  ultimately show ?thesis by linarith
qed

lemma In_cell_div: "In (px, py) (cell (px div 550) (py div 550))"
  using div_cell [of px] div_cell [of py] by (simp add: In_cell)

lemma assemble_Pix:
  assumes "0 \<le> px" "px < 2200" "0 \<le> py" "py < 2200"
  shows "Pix (fst (fst (assemble env t))) (px, py)
         = At (fst (downloadImage env resolution (px div 550) (py div 550) t))
              (px mod 550, py mod 550)"
proof -
  let ?c = "(px div 550, py div 550)"
  let ?cs = "receive (schedule env) (gridCoords resolution)"
  let ?rs = "map (\<lambda>c. fst (goroutine env t c)) ?cs"
  let ?r = "fst (goroutine env t ?c)"
  let ?canvas = "NewRGBA (Rect 0 0 (resolution * tileSize) (resolution * tileSize))"
  have "px div 550 \<le> 2199 div 550" "py div 550 \<le> 2199 div 550"
    using assms by (simp_all add: zdiv_mono1)
  with assms have "0 \<le> px div 550" "px div 550 \<le> 3" "0 \<le> py div 550" "py div 550 \<le> 3"
    by (simp_all add: pos_imp_zdiv_nonneg_iff)
  then have "?c \<in> set (gridCoords resolution)"
    by (simp add: set_gridCoords resolution_def)
  then have "?c \<in> set ?cs"
    using mset_eq_setD [OF mset_receive [of "schedule env" "gridCoords resolution"]] by simp
  then have r: "?r \<in> set ?rs" by simp
  have d: "distinct (map coord ?rs)"
    unfolding map_coord_goroutine by (simp add: distinct_receive distinct_gridCoords)
  have xy: "res_x ?r = px div 550" "res_y ?r = py div 550"
    using coord_goroutine [of env t ?c] by (simp_all add: coord_def)
  have i: "In (px, py) (cell (res_x ?r) (res_y ?r))"
    unfolding xy by (rule In_cell_div)
  have sub: "PtSub (px, py) (MinPt (cell (px div 550) (py div 550))) = (px mod 550, py mod 550)"
    by (simp add: cell_eq PtSub_def minus_div_mult_eq_mod)
  have b: "In (px, py) (Bounds ?canvas)"
    using assms by (simp add: NewRGBA_def Rect_def In_def resolution_def tileSize_def)
  have "fst (fst (assemble env t)) = fst (drawLoop ?canvas 0 ?rs)"
    by (simp add: assemble_def Let_def comp_def)
  then have "Pix (fst (fst (assemble env t))) (px, py) = Pix (drawTile ?canvas ?r) (px, py)"
    using drawLoop_Pix [OF d r i] by simp
  also have "\<dots> = At (res_img ?r) (px mod 550, py mod 550)"
    using i b by (simp add: drawTile_Pix xy sub At_def) (simp add: NewRGBA_def)
  finally show ?thesis by (simp add: res_img_goroutine)
qed

lemma receive_any_order: "mset ys = mset xs \<Longrightarrow> \<exists>ks. receive ks xs = ys"
proof (induction ys arbitrary: xs)
  case Nil
  then have "xs = []" by simp
  then have "receive [] xs = []" by simp
  then show ?case ..
next
  case (Cons y ys)
  then have "y \<in> set xs" by (metis list.set_intros(1) mset_eq_setD)
  then obtain n where n: "n < length xs" and y: "xs ! n = y"
    by (auto simp: in_set_conv_nth)
  let ?xs' = "take n xs @ drop (Suc n) xs"
  have "mset xs = mset ?xs' + {#y#}"
    using id_take_nth_drop [OF n] y by (metis add_mset_add_single mset.simps(2) mset_append union_mset_add_mset_right)
  with Cons.prems have "mset ys = mset ?xs'" by simp
  from Cons.IH [OF this] obtain ks where ks: "receive ks ?xs' = ys" ..
  from n obtain v va where xs: "xs = v # va" by (cases xs) auto
  have "receive (n # ks) xs = y # ys"
    using n y ks unfolding xs by (simp add: Let_def)
  then show ?case ..
qed

lemma downloadImage_schedule:
  "downloadImage (env\<lparr>schedule := ks\<rparr>) res i j t = downloadImage env res i j t"
  by (simp add: downloadImage_def Let_def split: sum.splits)

lemma goroutine_schedule: "goroutine (env\<lparr>schedule := ks\<rparr>) t = goroutine env t"
  by (rule ext) (simp add: goroutine_def downloadImage_schedule)

lemma assemble_schedule:
  "fst (assemble (env\<lparr>schedule := ks\<rparr>) t) = fst (assemble (env\<lparr>schedule := ks'\<rparr>) t)"
proof -
  let ?rs = "\<lambda>ks. map (\<lambda>c. fst (goroutine env t c)) (receive ks (gridCoords resolution))"
  have d: "distinct (map coord (?rs ks'))"
    unfolding map_coord_goroutine by (simp add: distinct_receive distinct_gridCoords)
  have m: "mset (?rs ks) = mset (?rs ks')"
    by (simp add: mset_receive)
  show ?thesis
    by (simp add: assemble_def Let_def goroutine_schedule comp_def drawLoop_perm [OF d m])
qed

text \<open>
  C10: one turn of the drawing loop leaves the bounds of the canvas and every pixel outside
  the cell of its own coordinate as they were. The cell of \<open>(x, y)\<close> is the rectangle
  \<open>[x*550, (x+1)*550) \<times> [y*550, (y+1)*550)\<close>, the cells of two different coordinates share
  no pixel, and so the draw for one coordinate changes no pixel of another cell, whatever
  the bounds of the decoded image are.
\<close>

theorem tile_draw_stays_in_cell:
  "Bounds (drawTile canvas res) = Bounds canvas
   \<and> (In p (cell x y) \<longleftrightarrow>
        x * 550 \<le> fst p \<and> fst p < (x + 1) * 550 \<and> y * 550 \<le> snd p \<and> snd p < (y + 1) * 550)
   \<and> (\<not> In p (cell (res_x res) (res_y res)) \<longrightarrow> Pix (drawTile canvas res) p = Pix canvas p)
   \<and> ((x, y) \<noteq> (x', y') \<longrightarrow> \<not> (In p (cell x y) \<and> In p (cell x' y')))
   \<and> ((x', y') \<noteq> (res_x res, res_y res) \<and> In p (cell x' y') \<longrightarrow>
        Pix (drawTile canvas res) p = Pix canvas p)"
proof -
  have d: "(x, y) \<noteq> (x', y') \<longrightarrow> \<not> (In p (cell x y) \<and> In p (cell x' y'))" for x y x' y'
    using cell_disjoint [of p x y x' y'] by auto
  have "(x', y') \<noteq> (res_x res, res_y res) \<and> In p (cell x' y') \<longrightarrow>
        \<not> In p (cell (res_x res) (res_y res))"
    using d [of x' y' "res_x res" "res_y res"] by blast
  then show ?thesis
    using d [of x y x' y'] drawTile_frame [of p res canvas]
    by (simp add: drawTile_Bounds In_cell)
qed

theorem tile_draw_stays_in_cell_witness:
  "\<not> In (1100, 1100) (cell 1 2)
   \<and> ((1::int), (2::int)) \<noteq> (2, 2)
   \<and> In (1100, 1100) (cell 2 2)
   \<and> Pix (drawTile (NewRGBA (Rect 0 0 2200 2200))
            \<lparr>res_x = 1, res_y = 2, res_img = solid 600 700 Black\<rparr>) (1100, 1100)
       = Pix (NewRGBA (Rect 0 0 2200 2200)) (1100, 1100)
   \<and> Pix (drawTile (NewRGBA (Rect 0 0 2200 2200))
            \<lparr>res_x = 1, res_y = 2, res_img = solid 600 700 Black\<rparr>) (1099, 1100) = Black"
  using tile_draw_stays_in_cell
    [of "NewRGBA (Rect 0 0 2200 2200)" "\<lparr>res_x = 1, res_y = 2, res_img = solid 600 700 Black\<rparr>"
        "(1100, 1100)" 1 2 2 2]
  by (simp add: In_cell drawTile_Pix cell_eq NewRGBA_def Rect_def In_def solid_def PtSub_def)

text \<open>
  C3: the 16 results of the goroutines carry 16 distinct coordinates, and for results with
  distinct coordinates the drawing loop gives the same canvas (and the same count) for
  every order in which it receives them. Every order of the 16 coordinates is one the
  scheduler of the model can produce, and the canvas that the assembly returns does not
  depend on the scheduler.
\<close>

theorem drawing_order_independent:
  "length (map (\<lambda>c. fst (goroutine env t c)) (gridCoords resolution)) = 16
   \<and> distinct (map coord (map (\<lambda>c. fst (goroutine env t c)) (gridCoords resolution)))
   \<and> (distinct (map coord results) \<and> mset results' = mset results \<longrightarrow>
        drawLoop canvas n results' = drawLoop canvas n results)
   \<and> (mset order = mset (gridCoords resolution) \<longrightarrow>
        (\<exists>ks. receive ks (gridCoords resolution) = order))
   \<and> fst (assemble (env\<lparr>schedule := ks\<rparr>) t) = fst (assemble (env\<lparr>schedule := ks'\<rparr>) t)"
proof -
  have a: "distinct (map coord (map (\<lambda>c. fst (goroutine env t c)) (gridCoords resolution)))"
    unfolding map_coord_goroutine by (rule distinct_gridCoords)
  have b: "distinct (map coord results) \<and> mset results' = mset results \<longrightarrow>
        drawLoop canvas n results' = drawLoop canvas n results"
    using drawLoop_perm [of results results' canvas n] by blast
  have c: "mset order = mset (gridCoords resolution) \<longrightarrow>
        (\<exists>ks. receive ks (gridCoords resolution) = order)"
    using receive_any_order [of order "gridCoords resolution"] by blast
  have l: "length (map (\<lambda>c. fst (goroutine env t c)) (gridCoords resolution)) = 16"
    by (simp add: length_gridCoords)
  show ?thesis
    by (intro conjI) (rule l a b c assemble_schedule)+
qed

theorem drawing_order_independent_witness:
  "distinct (map coord [\<lparr>res_x = 0, res_y = 0, res_img = solid 550 550 Black\<rparr>,
                        \<lparr>res_x = 1, res_y = 0, res_img = NewRGBA (Rect 0 0 550 550)\<rparr>])
   \<and> mset [\<lparr>res_x = 1, res_y = 0, res_img = NewRGBA (Rect 0 0 550 550)\<rparr>,
            \<lparr>res_x = 0, res_y = 0, res_img = solid 550 550 Black\<rparr>]
       = mset [\<lparr>res_x = 0, res_y = 0, res_img = solid 550 550 Black\<rparr>,
               \<lparr>res_x = 1, res_y = 0, res_img = NewRGBA (Rect 0 0 550 550)\<rparr>]
   \<and> drawLoop (NewRGBA (Rect 0 0 2200 2200)) 0
        [\<lparr>res_x = 1, res_y = 0, res_img = NewRGBA (Rect 0 0 550 550)\<rparr>,
         \<lparr>res_x = 0, res_y = 0, res_img = solid 550 550 Black\<rparr>]
       = drawLoop (NewRGBA (Rect 0 0 2200 2200)) 0
           [\<lparr>res_x = 0, res_y = 0, res_img = solid 550 550 Black\<rparr>,
            \<lparr>res_x = 1, res_y = 0, res_img = NewRGBA (Rect 0 0 550 550)\<rparr>]"
proof -
  let ?a = "\<lparr>res_x = 0, res_y = 0, res_img = solid 550 550 Black\<rparr>"
  let ?b = "\<lparr>res_x = 1, res_y = 0, res_img = NewRGBA (Rect 0 0 550 550)\<rparr>"
  have d: "distinct (map coord [?a, ?b])" by (simp add: coord_def)
  have m: "mset [?b, ?a] = mset [?a, ?b]" by (simp add: add_mset_commute)
  from drawing_order_independent [of world zeroTime "[?a, ?b]" "[?b, ?a]"
      "NewRGBA (Rect 0 0 2200 2200)" 0 "[]" "[]" "[]"] d m
  have "drawLoop (NewRGBA (Rect 0 0 2200 2200)) 0 [?b, ?a]
        = drawLoop (NewRGBA (Rect 0 0 2200 2200)) 0 [?a, ?b]"
    by blast
  with d m show ?thesis by blast
qed

text \<open>
  C2: for every timestamp and every answer of the outside, the grid assembly dispatches one
  goroutine for each of the 16 distinct coordinates \<open>(i, j)\<close> with \<open>i, j\<close> in
  \<open>[0, 4)\<close>, makes exactly the 16 tile requests of these coordinates, draws 16 results
  before it goes on, and returns a canvas of 2200 by 2200 pixels in which the pixel at
  \<open>(i*550 + a, j*550 + b)\<close> is the pixel \<open>(a, b)\<close> of the tile that
  \<^verbatim>\<open>downloadImage\<close> returned for \<open>(i, j)\<close>, the blank placeholder when that fetch failed.
\<close>

theorem grid_assembly:
  "length (gridCoords resolution) = 16
   \<and> distinct (gridCoords resolution)
   \<and> set (gridCoords resolution) = {0..3} \<times> {0..3}
   \<and> mset (httpGets (snd (assemble env t)))
       = mset (map (\<lambda>c. tileURL resolution (fst c) (snd c) t) (gridCoords resolution))
   \<and> snd (fst (assemble env t)) = 16
   \<and> Bounds (fst (fst (assemble env t))) = \<lparr>MinPt = (0, 0), MaxPt = (2200, 2200)\<rparr>
   \<and> (0 \<le> px \<and> px < 2200 \<and> 0 \<le> py \<and> py < 2200 \<longrightarrow>
        Pix (fst (fst (assemble env t))) (px, py)
        = At (fst (downloadImage env resolution (px div 550) (py div 550) t))
             (px mod 550, py mod 550))"
proof -
  have s: "set (gridCoords resolution) = {0..3} \<times> {0..3}"
    by (simp add: set_gridCoords resolution_def)
  have p: "0 \<le> px \<and> px < 2200 \<and> 0 \<le> py \<and> py < 2200 \<longrightarrow>
        Pix (fst (fst (assemble env t))) (px, py)
        = At (fst (downloadImage env resolution (px div 550) (py div 550) t))
             (px mod 550, py mod 550)"
    using assemble_Pix [of px py env t] by blast
  show ?thesis
    by (intro conjI)
      (rule length_gridCoords distinct_gridCoords s assemble_events assemble_count
        assemble_Bounds p)+
qed

lemma tileURL_sample:
  "tileURL 4 i j (utc 2026 1 11 16 10 0)
   = ''https://anzu.shinshu-u.ac.jp/himawari/img/D531106/4d/550/2026/01/11/161000_''
     @ fmt_d i @ ''_'' @ fmt_d j @ ''.png''"
  by (simp add: tileURL_def IsZero_def instant_def zeroTime_def utc_def fmt_0d_def fmt_d_def
      digits.simps)

theorem grid_assembly_witness:
  "(0::int) \<le> 700 \<and> (700::int) < 2200 \<and> (0::int) \<le> 100 \<and> (100::int) < 2200
   \<and> Pix (fst (fst (assemble world (utc 2026 1 11 16 10 0)))) (700, 100) = Black
   \<and> Pix (fst (fst (assemble world (utc 2026 1 11 16 10 0)))) (10, 10) = Transparent"
  using grid_assembly [of world "utc 2026 1 11 16 10 0" 700 100]
    grid_assembly [of world "utc 2026 1 11 16 10 0" 10 10]
  by (simp add: downloadImage_def Let_def tileURL_sample resolution_def world_def fmt_d_def
      digits.simps At_def solid_def Rect_def In_def NewRGBA_def tileSize_def)

section \<open>The border\<close>

lemma addBorder_Bounds:
  assumes "0 \<le> Dx (Bounds canvas) + b * 2" "0 \<le> Dy (Bounds canvas) + b * 2"
  shows "Bounds (addBorder b canvas)
         = \<lparr>MinPt = (0, 0), MaxPt = (Dx (Bounds canvas) + b * 2, Dy (Bounds canvas) + b * 2)\<rparr>"
  using assms by (simp add: addBorder_def Let_def Draw_Bounds NewRGBA_def Rect_def)

lemma addBorder_Pix:
  assumes bc: "Bounds canvas = Rect 0 0 w h" and "0 \<le> w" "0 \<le> h" "0 \<le> b"
    and "w + 2 * b \<le> 1000000000" "h + 2 * b \<le> 1000000000"
    and "0 \<le> x" "x < w + 2 * b" "0 \<le> y" "y < h + 2 * b"
  shows "Pix (addBorder b canvas) (x, y)
         = (if b \<le> x \<and> x < b + w \<and> b \<le> y \<and> y < b + h then Pix canvas (x - b, y - b) else Black)"
  using assms
  by (simp add: addBorder_def Let_def Draw_Pix Draw_Bounds NewRGBA_def Rect_def In_def
      Uniform_def PtAdd_def PtSub_def Dx_def Dy_def)

text \<open>
  C4: for a canvas of width \<open>w\<close> and height \<open>h\<close> with its corner at the origin and a
  border of \<open>b\<close> pixels (all non-negative, the result within the bounds of
  \<^verbatim>\<open>image.Uniform\<close>), the border step gives an image of \<open>w + 2b\<close> by \<open>h + 2b\<close>
  pixels in which every pixel outside \<open>[b, b+w) \<times> [b, b+h)\<close> is black and every pixel
  inside is the pixel of the canvas at the same place, moved by \<open>(b, b)\<close>. The image
  that \<^verbatim>\<open>processWallpaper\<close> encodes is this one for the assembled canvas and the border of
  180, 2560 by 2560 pixels.
\<close>

theorem border_composition:
  assumes "Bounds canvas = Rect 0 0 w h" and "0 \<le> w" and "0 \<le> h" and "0 \<le> b"
    and "w + 2 * b \<le> 1000000000" and "h + 2 * b \<le> 1000000000"
  shows "Bounds (addBorder b canvas) = \<lparr>MinPt = (0, 0), MaxPt = (w + 2 * b, h + 2 * b)\<rparr>
   \<and> Dx (Bounds (addBorder b canvas)) = w + 2 * b
   \<and> Dy (Bounds (addBorder b canvas)) = h + 2 * b
   \<and> (0 \<le> x \<and> x < w + 2 * b \<and> 0 \<le> y \<and> y < h + 2 * b \<longrightarrow>
        Pix (addBorder b canvas) (x, y)
        = (if b \<le> x \<and> x < b + w \<and> b \<le> y \<and> y < b + h
           then Pix canvas (x - b, y - b) else Black))
   \<and> Bounds (addBorder border (fst (fst (assemble env t))))
       = \<lparr>MinPt = (0, 0), MaxPt = (2560, 2560)\<rparr>
   \<and> (osCreate env (tempPath env ''earth_wallpaper_full.png'') = None \<longrightarrow>
        Encode (tempPath env ''earth_wallpaper_full.png'')
               (addBorder border (fst (fst (assemble env t))))
        \<in> set (snd (processWallpaper env t)))"
proof -
  have d: "Dx (Bounds canvas) = w" "Dy (Bounds canvas) = h"
    using assms by (simp_all add: Rect_def Dx_def Dy_def)
  have B: "Bounds (addBorder b canvas) = \<lparr>MinPt = (0, 0), MaxPt = (w + 2 * b, h + 2 * b)\<rparr>"
  proof -
    have "0 \<le> Dx (Bounds canvas) + b * 2" and "0 \<le> Dy (Bounds canvas) + b * 2"
      using assms(2-4) unfolding d by simp_all
    from addBorder_Bounds [OF this] show ?thesis unfolding d by (simp add: mult.commute)
  qed
  have P: "0 \<le> x \<and> x < w + 2 * b \<and> 0 \<le> y \<and> y < h + 2 * b \<longrightarrow>
        Pix (addBorder b canvas) (x, y)
        = (if b \<le> x \<and> x < b + w \<and> b \<le> y \<and> y < b + h
           then Pix canvas (x - b, y - b) else Black)"
    using addBorder_Pix [OF assms, of x y] by blast
  have F: "Bounds (addBorder border (fst (fst (assemble env t))))
       = \<lparr>MinPt = (0, 0), MaxPt = (2560, 2560)\<rparr>"
    using addBorder_Bounds [of "fst (fst (assemble env t))" border]
    by (simp add: assemble_Bounds Dx_def Dy_def border_def)
  have E: "osCreate env (tempPath env ''earth_wallpaper_full.png'') = None \<longrightarrow>
        Encode (tempPath env ''earth_wallpaper_full.png'')
               (addBorder border (fst (fst (assemble env t))))
        \<in> set (snd (processWallpaper env t))"
    by (simp add: processWallpaper_def Let_def split: prod.splits)
  show ?thesis using B P F E by (simp add: Dx_def Dy_def)
qed

theorem border_composition_witness:
  "Bounds (solid 4 3 (RGBA 9 8 7 255)) = Rect 0 0 4 3
   \<and> Bounds (addBorder 2 (solid 4 3 (RGBA 9 8 7 255))) = \<lparr>MinPt = (0, 0), MaxPt = (8, 7)\<rparr>
   \<and> Pix (addBorder 2 (solid 4 3 (RGBA 9 8 7 255))) (1, 4) = Black
   \<and> Pix (addBorder 2 (solid 4 3 (RGBA 9 8 7 255))) (5, 4) = RGBA 9 8 7 255
   \<and> Bounds (addBorder border (fst (fst (assemble world zeroTime))))
       = \<lparr>MinPt = (0, 0), MaxPt = (2560, 2560)\<rparr>"
proof -
  have h: "Bounds (solid 4 3 (RGBA 9 8 7 255)) = Rect 0 0 4 3" by (simp add: solid_def)
  have n: "(0::int) \<le> 4" "(0::int) \<le> 3" "(0::int) \<le> 2"
    "(4::int) + 2 * 2 \<le> 1000000000" "(3::int) + 2 * 2 \<le> 1000000000" by simp_all
  note T = border_composition [OF h n]
  from T [of 1 4 world zeroTime] T [of 5 4 world zeroTime] h
  show ?thesis by (simp add: solid_def)
qed

section \<open>One run of the fetcher\<close>

lemma latestImage_events:
  "fst (latestImage env) = Inr raw \<Longrightarrow>
   snd (latestImage env) = [HttpGet latestURL, Log ''Latest image date: %s'']"
  by (auto simp: latestImage_def split: sum.splits)

lemma doFetch_error:
  assumes "fst (latestImage env) = Inl e"
  shows "doFetch env s =
     (s, snd (latestImage env)
         @ [SetTitle ''Date: Error fetching'', Log ''startFetcher: latestImage error: %v''])"
  using assms by (cases "latestImage env") (simp add: doFetch_def)

lemma doFetch_unparsed:
  assumes "fst (latestImage env) = Inr raw" and "timeParse env raw = Inl e"
  shows "doFetch env s =
     (s\<lparr>latestImageDate := raw\<rparr>,
      snd (latestImage env)
      @ [StoreDate raw, SetTitle (''Date: '' @ raw),
         Log ''startFetcher: failed to parse date %s: %v''])"
  using assms by (cases "latestImage env") (simp add: doFetch_def)

lemma doFetch_claimed:
  assumes "fst (latestImage env) = Inr raw" and "timeParse env raw = Inr parsed"
    and "IsZero (latestImageTime s) \<or> After parsed (latestImageTime s)"
  shows "doFetch env s =
     (s\<lparr>latestImageTime := parsed, latestImageDate := raw\<rparr>,
      snd (latestImage env)
      @ [StoreTime parsed, StoreDate raw, SetTitle (''Date: '' @ raw)]
      @ snd (processWallpaper env parsed)
      @ (if fst (processWallpaper env parsed) \<noteq> []
         then setWallpaper env (fst (processWallpaper env parsed)) else []))"
proof -
  have c: "claim s raw parsed = (True, s\<lparr>latestImageTime := parsed, latestImageDate := raw\<rparr>)"
    using assms(3) by (simp add: claim_def Let_def)
  show ?thesis
    using assms(1,2)
    by (cases "latestImage env"; cases "processWallpaper env parsed") (simp add: doFetch_def c)
qed

lemma doFetch_rejected:
  assumes "fst (latestImage env) = Inr raw" and "timeParse env raw = Inr parsed"
    and "\<not> IsZero (latestImageTime s)" and "\<not> After parsed (latestImageTime s)"
  shows "doFetch env s = (s, snd (latestImage env) @ [SetTitle (''Date: '' @ raw)])"
proof -
  have c: "claim s raw parsed = (False, s)"
    using assms(3,4) by (simp add: claim_def Let_def)
  show ?thesis
    using assms(1,2) by (cases "latestImage env") (simp add: doFetch_def c)
qed

lemma processWallpaper_eq:
  "processWallpaper env t =
     (case osCreate env (tempPath env ''earth_wallpaper_full.png'') of
        Some err \<Rightarrow>
          ([], snd (assemble env t)
               @ [Create (tempPath env ''earth_wallpaper_full.png''),
                  Log ''processWallpaper: failed to create file: %v''])
      | None \<Rightarrow>
          (tempPath env ''earth_wallpaper_full.png'',
           snd (assemble env t)
           @ [Create (tempPath env ''earth_wallpaper_full.png''),
              Encode (tempPath env ''earth_wallpaper_full.png'')
                (addBorder border (fst (fst (assemble env t))))]
           @ (case pngEncode env (addBorder border (fst (fst (assemble env t)))) of
                Some err \<Rightarrow> [Log ''processWallpaper: failed to encode png: %v'']
              | None \<Rightarrow> [])
           @ [Log ''Wallpaper save to: %s'']))"
proof -
  obtain canvas cnt evs where a: "assemble env t = ((canvas, cnt), evs)"
    by (cases "assemble env t") auto
  show ?thesis by (simp add: processWallpaper_def Let_def a split: option.splits)
qed

lemma processWallpaper_not_created:
  "osCreate env (tempPath env ''earth_wallpaper_full.png'') = Some e \<Longrightarrow>
   processWallpaper env t =
     ([], snd (assemble env t)
          @ [Create (tempPath env ''earth_wallpaper_full.png''),
             Log ''processWallpaper: failed to create file: %v''])"
  by (simp add: processWallpaper_eq)

lemma processWallpaper_created:
  "osCreate env (tempPath env ''earth_wallpaper_full.png'') = None \<Longrightarrow>
   fst (processWallpaper env t) = tempPath env ''earth_wallpaper_full.png''"
  by (simp add: processWallpaper_eq)

lemma processWallpaper_encode_fails:
  "osCreate env (tempPath env ''earth_wallpaper_full.png'') = None \<Longrightarrow>
   pngEncode env (addBorder border (fst (fst (assemble env t)))) = Some e \<Longrightarrow>
   processWallpaper env t =
     (tempPath env ''earth_wallpaper_full.png'',
      snd (assemble env t)
      @ [Create (tempPath env ''earth_wallpaper_full.png''),
         Encode (tempPath env ''earth_wallpaper_full.png'')
           (addBorder border (fst (fst (assemble env t)))),
         Log ''processWallpaper: failed to encode png: %v'',
         Log ''Wallpaper save to: %s''])"
  by (simp add: processWallpaper_eq)

lemma downloadImage_no_store: "list_all (\<lambda>e. \<not> isStore e) (snd (downloadImage env res i j t))"
  by (simp add: downloadImage_def Let_def split: sum.splits)

lemma goroutine_no_store: "list_all (\<lambda>e. \<not> isStore e) (snd (goroutine env t c))"
proof -
  obtain x y where c: "c = (x, y)" by (cases c)
  obtain im evs where d: "downloadImage env resolution x y t = (im, evs)"
    by (cases "downloadImage env resolution x y t")
  from downloadImage_no_store [of env resolution x y t] d
  show ?thesis by (simp add: goroutine_def c)
qed

lemma assemble_no_store: "list_all (\<lambda>e. \<not> isStore e) (snd (assemble env t))"
proof -
  have "list_all (\<lambda>e. \<not> isStore e) (concat (map (\<lambda>c. snd (goroutine env t c)) cs))" for cs
    by (induction cs) (simp_all add: goroutine_no_store)
  then show ?thesis by (simp add: assemble_def Let_def comp_def)
qed

lemma processWallpaper_no_store: "list_all (\<lambda>e. \<not> isStore e) (snd (processWallpaper env t))"
  using assemble_no_store [of env t]
  by (simp add: processWallpaper_eq split: option.splits)

lemma setWallpaper_no_store: "list_all (\<lambda>e. \<not> isStore e) (setWallpaper env p)"
  by (simp add: setWallpaper_def split: option.splits)

lemma doFetch_keeps_later:
  assumes z: "After T zeroTime" and k: "\<not> After T (latestImageTime s)"
  shows "\<not> After T (latestImageTime (fst (doFetch env s)))"
proof (cases "fst (latestImage env)")
  case (Inl e)
  then show ?thesis using k by (simp add: doFetch_error)
next
  case (Inr raw)
  show ?thesis
  proof (cases "timeParse env raw")
    case (Inl e)
    with Inr show ?thesis using k by (simp add: doFetch_unparsed)
  next
    case p: (Inr parsed)
    have nz: "\<not> IsZero (latestImageTime s)"
      using z k by (auto simp: After_def IsZero_def)
    show ?thesis
    proof (cases "After parsed (latestImageTime s)")
      case True
      then have "\<not> After T parsed" using k by (auto simp: After_def)
      with Inr p True show ?thesis by (simp add: doFetch_claimed)
    next
      case False
      with Inr p nz show ?thesis using k by (simp add: doFetch_rejected)
    qed
  qed
qed

lemma polls_Cons_fst: "fst (polls s (env # envs)) = fst (polls (fst (doFetch env s)) envs)"
  by (simp split: prod.splits)

lemma polls_keep_later:
  assumes "After T zeroTime" and "\<not> After T (latestImageTime s)"
  shows "\<not> After T (latestImageTime (fst (polls s envs)))"
  using assms(2)
proof (induction envs arbitrary: s)
  case Nil
  then show ?case by simp
next
  case (Cons env envs)
  from doFetch_keeps_later [OF assms(1) Cons.prems]
  have "\<not> After T (latestImageTime (fst (doFetch env s)))" .
  from Cons.IH [OF this] show ?case
    unfolding polls_Cons_fst .
qed

section \<open>Tile download\<close>

lemma latestURL_not_tile: "latestURL \<noteq> tileURL 4 0 0 (utc 2026 1 11 16 10 0)"
  by (simp add: tileURL_sample latestURL_def)

lemma world_latestImage:
  "jsonDecode env = jsonDecode world \<Longrightarrow> httpGet env = httpGet world \<Longrightarrow>
   latestImage env = (Inr ''2026-01-11 16:10:00'', [HttpGet latestURL, Log ''Latest image date: %s''])"
  using latestURL_not_tile by (simp add: latestImage_def world_def)

text \<open>
  C5: \<^verbatim>\<open>downloadImage\<close> returns an image on every path and has no error result. When the
  request fails, the status is not 200, reading the body fails or the PNG does not decode,
  the image it returns is a new RGBA image of 550 by 550 pixels, every pixel the zero
  colour; otherwise it is the decoded image.
\<close>

theorem download_never_fails:
  "(httpGet env (tileURL res i j t) = Inl e \<longrightarrow>
      fst (downloadImage env res i j t) = NewRGBA (Rect 0 0 tileSize tileSize))
   \<and> (httpGet env (tileURL res i j t) = Inr resp \<and> StatusCode resp \<noteq> 200 \<longrightarrow>
      fst (downloadImage env res i j t) = NewRGBA (Rect 0 0 tileSize tileSize))
   \<and> (httpGet env (tileURL res i j t) = Inr resp \<and> Body resp = Inl e \<longrightarrow>
      fst (downloadImage env res i j t) = NewRGBA (Rect 0 0 tileSize tileSize))
   \<and> (httpGet env (tileURL res i j t) = Inr resp \<and> Body resp = Inr buf
        \<and> pngDecode env buf = Inl e \<longrightarrow>
      fst (downloadImage env res i j t) = NewRGBA (Rect 0 0 tileSize tileSize))
   \<and> (httpGet env (tileURL res i j t) = Inr resp \<and> StatusCode resp = 200
        \<and> Body resp = Inr buf \<and> pngDecode env buf = Inr im \<longrightarrow>
      fst (downloadImage env res i j t) = im)
   \<and> Bounds (NewRGBA (Rect 0 0 tileSize tileSize)) = \<lparr>MinPt = (0, 0), MaxPt = (550, 550)\<rparr>
   \<and> Dx (Bounds (NewRGBA (Rect 0 0 tileSize tileSize))) = 550
   \<and> Dy (Bounds (NewRGBA (Rect 0 0 tileSize tileSize))) = 550
   \<and> Pix (NewRGBA (Rect 0 0 tileSize tileSize)) p = RGBA 0 0 0 0
   \<and> At (NewRGBA (Rect 0 0 tileSize tileSize)) p = RGBA 0 0 0 0"
  by (simp add: downloadImage_def Let_def NewRGBA_def Rect_def tileSize_def Dx_def Dy_def
      At_def Transparent_def)

theorem download_never_fails_witness:
  "httpGet world (tileURL 4 0 0 (utc 2026 1 11 16 10 0)) = Inl (Error ''connection refused'')
   \<and> StatusCode \<lparr>StatusCode = 404, Body = Inr []\<rparr> \<noteq> 200
   \<and> Body \<lparr>StatusCode = 200, Body = Inl (Error ''unexpected EOF'')\<rparr>
       = Inl (Error ''unexpected EOF'')
   \<and> pngDecode (world\<lparr>pngDecode := (\<lambda>b. Inl (Error ''png: invalid format''))\<rparr>)
         (tileURL 4 1 0 (utc 2026 1 11 16 10 0)) = Inl (Error ''png: invalid format'')
   \<and> fst (downloadImage world 4 0 0 (utc 2026 1 11 16 10 0)) = NewRGBA (Rect 0 0 tileSize tileSize)
   \<and> fst (downloadImage (world\<lparr>httpGet := (\<lambda>u. Inr \<lparr>StatusCode = 404, Body = Inr []\<rparr>)\<rparr>)
            4 1 0 (utc 2026 1 11 16 10 0)) = NewRGBA (Rect 0 0 tileSize tileSize)
   \<and> fst (downloadImage
            (world\<lparr>httpGet := (\<lambda>u. Inr \<lparr>StatusCode = 200, Body = Inl (Error ''unexpected EOF'')\<rparr>)\<rparr>)
            4 1 0 (utc 2026 1 11 16 10 0)) = NewRGBA (Rect 0 0 tileSize tileSize)
   \<and> fst (downloadImage (world\<lparr>pngDecode := (\<lambda>b. Inl (Error ''png: invalid format''))\<rparr>)
            4 1 0 (utc 2026 1 11 16 10 0)) = NewRGBA (Rect 0 0 tileSize tileSize)
   \<and> fst (downloadImage world 4 1 0 (utc 2026 1 11 16 10 0)) = solid 550 550 Black"
  using download_never_fails
      [where env = world and res = 4 and i = 0 and j = 0 and t = "utc 2026 1 11 16 10 0"
         and e = "Error ''connection refused''"]
    download_never_fails
      [where env = "world\<lparr>httpGet := (\<lambda>u. Inr \<lparr>StatusCode = 404, Body = Inr []\<rparr>)\<rparr>"
         and res = 4 and i = 1 and j = 0 and t = "utc 2026 1 11 16 10 0"
         and resp = "\<lparr>StatusCode = 404, Body = Inr []\<rparr>"]
    download_never_fails
      [where env = "world\<lparr>httpGet := (\<lambda>u. Inr \<lparr>StatusCode = 200, Body = Inl (Error ''unexpected EOF'')\<rparr>)\<rparr>"
         and res = 4 and i = 1 and j = 0 and t = "utc 2026 1 11 16 10 0"
         and resp = "\<lparr>StatusCode = 200, Body = Inl (Error ''unexpected EOF'')\<rparr>"
         and e = "Error ''unexpected EOF''"]
    download_never_fails
      [where env = "world\<lparr>pngDecode := (\<lambda>b. Inl (Error ''png: invalid format''))\<rparr>"
         and res = 4 and i = 1 and j = 0 and t = "utc 2026 1 11 16 10 0"
         and resp = "\<lparr>StatusCode = 200, Body = Inr (tileURL 4 1 0 (utc 2026 1 11 16 10 0))\<rparr>"
         and buf = "tileURL 4 1 0 (utc 2026 1 11 16 10 0)"
         and e = "Error ''png: invalid format''"]
    download_never_fails
      [where env = world and res = 4 and i = 1 and j = 0 and t = "utc 2026 1 11 16 10 0"
         and resp = "\<lparr>StatusCode = 200, Body = Inr (tileURL 4 1 0 (utc 2026 1 11 16 10 0))\<rparr>"
         and buf = "tileURL 4 1 0 (utc 2026 1 11 16 10 0)" and im = "solid 550 550 Black"]
  by (simp add: world_def tileURL_sample fmt_d_def digits.simps)

text \<open>
  C8: called with the zero time, \<^verbatim>\<open>downloadImage\<close> does not fail: it makes exactly one
  request, to the URL built from the fallback date 2026-01-10 02:00:00 (year 2026, month
  01, day 10, time 020000), which is the URL of that date as a normal timestamp. What the
  server answers at that URL decides the result: the decoded image when the request
  succeeds, the blank tile when it fails. Image and events are those of a call with
  2026-01-10 02:00:00, with one more log line in front that reports the fallback.
\<close>

theorem zero_time_fallback:
  "IsZero zeroTime
   \<and> tileURL res i j zeroTime
       = ''https://anzu.shinshu-u.ac.jp/himawari/img/D531106/'' @ fmt_d res
         @ ''d/550/2026/01/10/020000_'' @ fmt_d i @ ''_'' @ fmt_d j @ ''.png''
   \<and> tileURL res i j zeroTime = tileURL res i j (utc 2026 1 10 2 0 0)
   \<and> httpGets (snd (downloadImage env res i j zeroTime))
       = [''https://anzu.shinshu-u.ac.jp/himawari/img/D531106/'' @ fmt_d res
          @ ''d/550/2026/01/10/020000_'' @ fmt_d i @ ''_'' @ fmt_d j @ ''.png'']
   \<and> fst (downloadImage env res i j zeroTime)
       = fst (downloadImage env res i j (utc 2026 1 10 2 0 0))
   \<and> snd (downloadImage env res i j zeroTime)
       = Log ''downloadImage: received zero time, using fallback date''
         # snd (downloadImage env res i j (utc 2026 1 10 2 0 0))
   \<and> (httpGet env (''https://anzu.shinshu-u.ac.jp/himawari/img/D531106/'' @ fmt_d res
          @ ''d/550/2026/01/10/020000_'' @ fmt_d i @ ''_'' @ fmt_d j @ ''.png'') = Inr resp
        \<and> StatusCode resp = 200 \<and> Body resp = Inr buf \<and> pngDecode env buf = Inr im \<longrightarrow>
        downloadImage env res i j zeroTime
        = (im, [Log ''downloadImage: received zero time, using fallback date'',
                HttpGet (''https://anzu.shinshu-u.ac.jp/himawari/img/D531106/'' @ fmt_d res
                  @ ''d/550/2026/01/10/020000_'' @ fmt_d i @ ''_'' @ fmt_d j @ ''.png'')]))
   \<and> (httpGet env (''https://anzu.shinshu-u.ac.jp/himawari/img/D531106/'' @ fmt_d res
          @ ''d/550/2026/01/10/020000_'' @ fmt_d i @ ''_'' @ fmt_d j @ ''.png'') = Inl e \<longrightarrow>
        downloadImage env res i j zeroTime
        = (NewRGBA (Rect 0 0 tileSize tileSize),
           [Log ''downloadImage: received zero time, using fallback date'',
            HttpGet (''https://anzu.shinshu-u.ac.jp/himawari/img/D531106/'' @ fmt_d res
              @ ''d/550/2026/01/10/020000_'' @ fmt_d i @ ''_'' @ fmt_d j @ ''.png''),
            Log ''downloadImage: http get error for %s: %v'']))"
proof -
  let ?U = "''https://anzu.shinshu-u.ac.jp/himawari/img/D531106/'' @ fmt_d res
         @ ''d/550/2026/01/10/020000_'' @ fmt_d i @ ''_'' @ fmt_d j @ ''.png''"
  have z: "IsZero zeroTime" by (simp add: IsZero_def)
  have n: "\<not> IsZero (utc 2026 1 10 2 0 0)"
    by (simp add: IsZero_def instant_def zeroTime_def utc_def)
  have u0: "tileURL res i j zeroTime = ?U"
    by (simp add: tileURL_def z)
  have u1: "tileURL res i j (utc 2026 1 10 2 0 0) = ?U"
    by (simp add: tileURL_def n) (simp add: utc_def fmt_0d_def digits.simps)
  have u: "tileURL res i j zeroTime = tileURL res i j (utc 2026 1 10 2 0 0)"
    by (simp only: u0 u1)
  have g: "httpGets (snd (downloadImage env res i j zeroTime)) = [?U]"
    using httpGets_downloadImage [of env res i j zeroTime] unfolding u0 .
  have d: "downloadImage env res i j zeroTime
       = (fst (downloadImage env res i j (utc 2026 1 10 2 0 0)),
          Log ''downloadImage: received zero time, using fallback date''
          # snd (downloadImage env res i j (utc 2026 1 10 2 0 0)))"
    unfolding downloadImage_def Let_def u
    by (simp add: z n split: sum.splits)
  have ok: "httpGet env ?U = Inr resp \<and> StatusCode resp = 200 \<and> Body resp = Inr buf
        \<and> pngDecode env buf = Inr im \<longrightarrow>
        downloadImage env res i j zeroTime
        = (im, [Log ''downloadImage: received zero time, using fallback date'', HttpGet ?U])"
    unfolding downloadImage_def Let_def u0 by (simp add: z)
  have ko: "httpGet env ?U = Inl e \<longrightarrow>
        downloadImage env res i j zeroTime
        = (NewRGBA (Rect 0 0 tileSize tileSize),
           [Log ''downloadImage: received zero time, using fallback date'', HttpGet ?U,
            Log ''downloadImage: http get error for %s: %v''])"
    unfolding downloadImage_def Let_def u0 by (simp add: z)
  have f: "fst (downloadImage env res i j zeroTime)
       = fst (downloadImage env res i j (utc 2026 1 10 2 0 0))"
    and s: "snd (downloadImage env res i j zeroTime)
       = Log ''downloadImage: received zero time, using fallback date''
         # snd (downloadImage env res i j (utc 2026 1 10 2 0 0))"
    by (simp_all add: d)
  show ?thesis
    by (intro conjI) (rule z u0 u g f s ok ko)+
qed

theorem zero_time_fallback_witness:
  "httpGet world ''https://anzu.shinshu-u.ac.jp/himawari/img/D531106/4d/550/2026/01/10/020000_1_2.png''
     = Inr \<lparr>StatusCode = 200,
            Body = Inr ''https://anzu.shinshu-u.ac.jp/himawari/img/D531106/4d/550/2026/01/10/020000_1_2.png''\<rparr>
   \<and> pngDecode world ''https://anzu.shinshu-u.ac.jp/himawari/img/D531106/4d/550/2026/01/10/020000_1_2.png''
     = Inr (solid 550 550 Black)
   \<and> downloadImage world 4 1 2 zeroTime
     = (solid 550 550 Black,
        [Log ''downloadImage: received zero time, using fallback date'',
         HttpGet ''https://anzu.shinshu-u.ac.jp/himawari/img/D531106/4d/550/2026/01/10/020000_1_2.png''])
   \<and> httpGet (world\<lparr>httpGet := (\<lambda>u. Inl (Error ''connection refused''))\<rparr>)
        ''https://anzu.shinshu-u.ac.jp/himawari/img/D531106/4d/550/2026/01/10/020000_1_2.png''
     = Inl (Error ''connection refused'')
   \<and> downloadImage (world\<lparr>httpGet := (\<lambda>u. Inl (Error ''connection refused''))\<rparr>) 4 1 2 zeroTime
     = (NewRGBA (Rect 0 0 tileSize tileSize),
        [Log ''downloadImage: received zero time, using fallback date'',
         HttpGet ''https://anzu.shinshu-u.ac.jp/himawari/img/D531106/4d/550/2026/01/10/020000_1_2.png'',
         Log ''downloadImage: http get error for %s: %v''])"
proof -
  let ?L = "''https://anzu.shinshu-u.ac.jp/himawari/img/D531106/4d/550/2026/01/10/020000_1_2.png''"
  let ?w = "world\<lparr>httpGet := (\<lambda>u. Inl (Error ''connection refused''))\<rparr>"
  have U: "''https://anzu.shinshu-u.ac.jp/himawari/img/D531106/'' @ fmt_d 4
           @ ''d/550/2026/01/10/020000_'' @ fmt_d 1 @ ''_'' @ fmt_d 2 @ ''.png'' = ?L"
    by (simp add: fmt_d_def digits.simps)
  have h1: "httpGet world ?L = Inr \<lparr>StatusCode = 200, Body = Inr ?L\<rparr>"
    by (simp add: world_def tileURL_sample fmt_d_def digits.simps)
  have h2: "pngDecode world ?L = Inr (solid 550 550 Black)"
    by (simp add: world_def)
  have h3: "httpGet ?w ?L = Inl (Error ''connection refused'')"
    by simp
  note A = zero_time_fallback
      [where env = world and res = 4 and i = 1 and j = 2
         and resp = "\<lparr>StatusCode = 200, Body = Inr ?L\<rparr>" and buf = ?L
         and im = "solid 550 550 Black", unfolded U]
  note B = zero_time_fallback
      [where env = ?w and res = 4 and i = 1 and j = 2 and e = "Error ''connection refused''",
       unfolded U]
  from A h1 h2 have c1: "downloadImage world 4 1 2 zeroTime
     = (solid 550 550 Black,
        [Log ''downloadImage: received zero time, using fallback date'', HttpGet ?L])"
    by simp
  from B h3 have c2: "downloadImage ?w 4 1 2 zeroTime
     = (NewRGBA (Rect 0 0 tileSize tileSize),
        [Log ''downloadImage: received zero time, using fallback date'', HttpGet ?L,
         Log ''downloadImage: http get error for %s: %v''])"
    by blast
  show ?thesis
    by (intro conjI) (rule h1 h2 c1 h3 c2)+
qed

section \<open>Failures of a run\<close>

lemma downloadImage_no_sink: "list_all (\<lambda>e. \<not> isSink e) (snd (downloadImage env res i j t))"
  by (simp add: downloadImage_def Let_def split: sum.splits)

lemma goroutine_no_sink: "list_all (\<lambda>e. \<not> isSink e) (snd (goroutine env t c))"
proof -
  obtain x y where c: "c = (x, y)" by (cases c)
  obtain im evs where d: "downloadImage env resolution x y t = (im, evs)"
    by (cases "downloadImage env resolution x y t")
  from downloadImage_no_sink [of env resolution x y t] d
  show ?thesis by (simp add: goroutine_def c)
qed

lemma assemble_no_sink: "list_all (\<lambda>e. \<not> isSink e) (snd (assemble env t))"
proof -
  have "list_all (\<lambda>e. \<not> isSink e) (concat (map (\<lambda>c. snd (goroutine env t c)) cs))" for cs
    by (induction cs) (simp_all add: goroutine_no_sink)
  then show ?thesis by (simp add: assemble_def Let_def comp_def)
qed

lemma create_failure_no_sink:
  assumes "fst (latestImage env) = Inr raw" and "timeParse env raw = Inr parsed"
    and "IsZero (latestImageTime s) \<or> After parsed (latestImageTime s)"
    and "osCreate env (tempPath env ''earth_wallpaper_full.png'') = Some e"
  shows "list_all (\<lambda>e. \<not> isSink e) (snd (doFetch env s))"
  using assemble_no_sink [of env parsed]
  by (simp add: doFetch_claimed [OF assms(1-3)] processWallpaper_not_created [OF assms(4)]
      latestImage_events [OF assms(1)])

lemma encode_failure_sink:
  assumes "fst (latestImage env) = Inr raw" and "timeParse env raw = Inr parsed"
    and "IsZero (latestImageTime s) \<or> After parsed (latestImageTime s)"
    and "osCreate env (tempPath env ''earth_wallpaper_full.png'') = None"
    and "tempPath env ''earth_wallpaper_full.png'' \<noteq> []"
  shows "SetWallpaper (tempPath env ''earth_wallpaper_full.png'') \<in> set (snd (doFetch env s))"
  using assms(5)
  by (simp add: doFetch_claimed [OF assms(1-3)] processWallpaper_created [OF assms(4)]
      setWallpaper_def)

text \<open>
  C6 says that a failed save never reaches the wallpaper sink. That holds when the file
  cannot be created (\<open>create_failure_no_sink\<close>), but not when the encoder fails: with a
  file created and an encoder that reports an error, \<^verbatim>\<open>processWallpaper\<close> logs the error
  and still returns the path, and \<^verbatim>\<open>doFetch\<close> calls \<^verbatim>\<open>setWallpaper\<close> with it.
\<close>

theorem encode_failure_reaches_sink:
  "osCreate worldEncodeFails (tempPath worldEncodeFails ''earth_wallpaper_full.png'') = None
   \<and> pngEncode worldEncodeFails
        (addBorder border (fst (fst (assemble worldEncodeFails (utc 2026 1 11 16 10 0)))))
       = Some (Error ''short write'')
   \<and> fst (processWallpaper worldEncodeFails (utc 2026 1 11 16 10 0))
       = ''/tmp/earth_wallpaper_full.png''
   \<and> Log ''processWallpaper: failed to encode png: %v''
       \<in> set (snd (processWallpaper worldEncodeFails (utc 2026 1 11 16 10 0)))
   \<and> SetWallpaper ''/tmp/earth_wallpaper_full.png''
       \<in> set (snd (doFetch worldEncodeFails initState))
   \<and> list_all (\<lambda>e. \<not> isSink e) (snd (doFetch worldCreateFails initState))"
proof -
  have l: "latestImage worldEncodeFails
           = (Inr ''2026-01-11 16:10:00'', [HttpGet latestURL, Log ''Latest image date: %s''])"
    by (rule world_latestImage) (simp_all add: worldEncodeFails_def)
  have l': "latestImage worldCreateFails
           = (Inr ''2026-01-11 16:10:00'', [HttpGet latestURL, Log ''Latest image date: %s''])"
    by (rule world_latestImage) (simp_all add: worldCreateFails_def)
  have c: "osCreate worldEncodeFails (tempPath worldEncodeFails ''earth_wallpaper_full.png'') = None"
    by (simp add: worldEncodeFails_def world_def)
  have e: "pngEncode worldEncodeFails
        (addBorder border (fst (fst (assemble worldEncodeFails (utc 2026 1 11 16 10 0)))))
       = Some (Error ''short write'')"
    by (simp add: worldEncodeFails_def)
  have p: "tempPath worldEncodeFails ''earth_wallpaper_full.png'' = ''/tmp/earth_wallpaper_full.png''"
    by (simp add: worldEncodeFails_def world_def)
  have s: "SetWallpaper (tempPath worldEncodeFails ''earth_wallpaper_full.png'')
           \<in> set (snd (doFetch worldEncodeFails initState))"
    by (rule encode_failure_sink [where raw = "''2026-01-11 16:10:00''"
          and parsed = "utc 2026 1 11 16 10 0"])
      (simp_all add: l c p, simp_all add: worldEncodeFails_def world_def initState_def IsZero_def)
  have n: "list_all (\<lambda>e. \<not> isSink e) (snd (doFetch worldCreateFails initState))"
    by (rule create_failure_no_sink [where raw = "''2026-01-11 16:10:00''"
          and parsed = "utc 2026 1 11 16 10 0" and e = "Error ''permission denied''"])
      (simp_all add: l', simp_all add: worldCreateFails_def world_def initState_def IsZero_def)
  show ?thesis
    using c e s n processWallpaper_created [OF c, of "utc 2026 1 11 16 10 0"]
    by (simp add: processWallpaper_encode_fails [OF c e] p)
qed

text \<open>
  C7, as stated, fails: on a date that does not parse \<^verbatim>\<open>doFetch\<close> stores the raw string
  in \<^verbatim>\<open>latestImageDate\<close>, so the pair of package variables does change.
\<close>

theorem unparsable_date_counterexample:
  "fst (latestImage worldUnparsable) = Inr ''soon''
   \<and> timeParse worldUnparsable ''soon'' = Inl (Error ''cannot parse'')
   \<and> latestImageDate (fst (doFetch worldUnparsable
        \<lparr>latestImageDate = ''2026-01-11 16:10:00'', latestImageTime = utc 2026 1 11 16 10 0\<rparr>))
       = ''soon''
   \<and> fst (doFetch worldUnparsable
        \<lparr>latestImageDate = ''2026-01-11 16:10:00'', latestImageTime = utc 2026 1 11 16 10 0\<rparr>)
       \<noteq> \<lparr>latestImageDate = ''2026-01-11 16:10:00'', latestImageTime = utc 2026 1 11 16 10 0\<rparr>"
proof -
  have l: "fst (latestImage worldUnparsable) = Inr ''soon''"
    using latestURL_not_tile by (simp add: latestImage_def worldUnparsable_def world_def)
  have p: "timeParse worldUnparsable ''soon'' = Inl (Error ''cannot parse'')"
    by (simp add: worldUnparsable_def world_def)
  show ?thesis using l p by (simp add: doFetch_unparsed [OF l p])
qed

text \<open>
  C7, amended: when the date reported does not parse, \<^verbatim>\<open>doFetch\<close> shows the raw string
  in the title and stores it in \<^verbatim>\<open>latestImageDate\<close>, leaves \<^verbatim>\<open>latestImageTime\<close> as it
  was, and does nothing else: the only request is the one for the metadata, and no file, no
  encoding and no call of the wallpaper package follows.
\<close>

theorem unparsable_date_display_only:
  assumes "fst (latestImage env) = Inr raw" and "timeParse env raw = Inl e"
  shows "latestImageTime (fst (doFetch env s)) = latestImageTime s
   \<and> latestImageDate (fst (doFetch env s)) = raw
   \<and> fst (doFetch env s) = s\<lparr>latestImageDate := raw\<rparr>
   \<and> snd (doFetch env s)
       = [HttpGet latestURL, Log ''Latest image date: %s'', StoreDate raw,
          SetTitle (''Date: '' @ raw), Log ''startFetcher: failed to parse date %s: %v'']"
  by (simp add: doFetch_unparsed [OF assms] latestImage_events [OF assms(1)])

theorem unparsable_date_display_only_witness:
  "fst (latestImage worldUnparsable) = Inr ''soon''
   \<and> timeParse worldUnparsable ''soon'' = Inl (Error ''cannot parse'')
   \<and> doFetch worldUnparsable
        \<lparr>latestImageDate = ''2026-01-11 16:10:00'', latestImageTime = utc 2026 1 11 16 10 0\<rparr>
       = (\<lparr>latestImageDate = ''soon'', latestImageTime = utc 2026 1 11 16 10 0\<rparr>,
          [HttpGet latestURL, Log ''Latest image date: %s'', StoreDate ''soon'',
           SetTitle ''Date: soon'', Log ''startFetcher: failed to parse date %s: %v''])"
proof -
  have l: "fst (latestImage worldUnparsable) = Inr ''soon''"
    using latestURL_not_tile by (simp add: latestImage_def worldUnparsable_def world_def)
  have p: "timeParse worldUnparsable ''soon'' = Inl (Error ''cannot parse'')"
    by (simp add: worldUnparsable_def world_def)
  from unparsable_date_display_only [OF l p,
      of "\<lparr>latestImageDate = ''2026-01-11 16:10:00'', latestImageTime = utc 2026 1 11 16 10 0\<rparr>"]
  show ?thesis using l p by (simp add: prod_eq_iff)
qed

text \<open>
  C9, as stated, fails for the zero instant: a claim of 0001-01-01 00:00:00 leaves the
  stored time reading as unset. Here the first run claims it and its pipeline fails (the
  file cannot be created); the next run, given the same date, claims it again and goes
  through to the wallpaper sink.
\<close>

theorem zero_instant_retried_counterexample:
  "fst (latestImage worldZero) = Inr ''0001-01-01 00:00:00''
   \<and> timeParse worldZero ''0001-01-01 00:00:00'' = Inr zeroTime
   \<and> fst (doFetch (worldZero\<lparr>osCreate := (\<lambda>path. Some (Error ''permission denied''))\<rparr>) initState)
       = \<lparr>latestImageDate = ''0001-01-01 00:00:00'', latestImageTime = zeroTime\<rparr>
   \<and> fst (processWallpaper
             (worldZero\<lparr>osCreate := (\<lambda>path. Some (Error ''permission denied''))\<rparr>) zeroTime) = []
   \<and> StoreTime zeroTime
       \<in> set (snd (doFetch worldZero
                 \<lparr>latestImageDate = ''0001-01-01 00:00:00'', latestImageTime = zeroTime\<rparr>))
   \<and> SetWallpaper ''/tmp/earth_wallpaper_full.png''
       \<in> set (snd (doFetch worldZero
                 \<lparr>latestImageDate = ''0001-01-01 00:00:00'', latestImageTime = zeroTime\<rparr>))"
proof -
  let ?w1 = "worldZero\<lparr>osCreate := (\<lambda>path. Some (Error ''permission denied''))\<rparr>"
  let ?s1 = "\<lparr>latestImageDate = ''0001-01-01 00:00:00'', latestImageTime = zeroTime\<rparr>"
  have l: "fst (latestImage worldZero) = Inr ''0001-01-01 00:00:00''"
    using latestURL_not_tile by (simp add: latestImage_def worldZero_def world_def)
  have l1: "fst (latestImage ?w1) = Inr ''0001-01-01 00:00:00''"
    using latestURL_not_tile by (simp add: latestImage_def worldZero_def world_def)
  have p: "timeParse worldZero ''0001-01-01 00:00:00'' = Inr zeroTime"
    by (simp add: worldZero_def)
  have p1: "timeParse ?w1 ''0001-01-01 00:00:00'' = Inr zeroTime"
    by (simp add: worldZero_def)
  have z0: "IsZero (latestImageTime initState) \<or> After zeroTime (latestImageTime initState)"
    by (simp add: initState_def IsZero_def)
  have z1: "IsZero (latestImageTime ?s1) \<or> After zeroTime (latestImageTime ?s1)"
    by (simp add: IsZero_def)
  have c1: "osCreate ?w1 (tempPath ?w1 ''earth_wallpaper_full.png'') = Some (Error ''permission denied'')"
    by simp
  have c: "osCreate worldZero (tempPath worldZero ''earth_wallpaper_full.png'') = None"
    by (simp add: worldZero_def world_def)
  have t: "tempPath worldZero ''earth_wallpaper_full.png'' = ''/tmp/earth_wallpaper_full.png''"
    by (simp add: worldZero_def world_def)
  have a: "fst (doFetch ?w1 initState) = ?s1"
    unfolding doFetch_claimed [OF l1 p1 z0] by (simp add: initState_def)
  have b: "fst (processWallpaper ?w1 zeroTime) = []"
    by (simp add: processWallpaper_not_created [OF c1])
  have d: "StoreTime zeroTime \<in> set (snd (doFetch worldZero ?s1))"
    by (simp add: doFetch_claimed [OF l p z1])
  have e: "SetWallpaper ''/tmp/earth_wallpaper_full.png'' \<in> set (snd (doFetch worldZero ?s1))"
    using encode_failure_sink [OF l p z1 c] by (simp add: t)
  show ?thesis using l p a b d e by simp
qed

text \<open>
  C9, amended: a successful claim of a time \<open>T\<close> later than the zero instant stores \<open>T\<close>
  (and the raw string) before the pipeline starts, nothing the pipeline or the sink does
  writes the package variables, and the state after the run holds \<open>T\<close> whatever the
  pipeline did. After any number of further runs, whatever the outside answers in them, a
  run that is given \<open>T\<close> again only sets the title: no request for a tile, no file, no
  call of the wallpaper package, and the state stays as it is.
\<close>

theorem claim_commits_before_pipeline:
  assumes "fst (latestImage env) = Inr raw" and "timeParse env raw = Inr T"
    and "IsZero (latestImageTime s) \<or> After T (latestImageTime s)"
    and "After T zeroTime"
    and "fst (latestImage env') = Inr raw'" and "timeParse env' raw' = Inr T"
  shows "fst (doFetch env s) = s\<lparr>latestImageTime := T, latestImageDate := raw\<rparr>
   \<and> snd (doFetch env s)
       = [HttpGet latestURL, Log ''Latest image date: %s'',
          StoreTime T, StoreDate raw, SetTitle (''Date: '' @ raw)]
         @ snd (processWallpaper env T)
         @ (if fst (processWallpaper env T) \<noteq> []
            then setWallpaper env (fst (processWallpaper env T)) else [])
   \<and> list_all (\<lambda>e. \<not> isStore e)
        (snd (processWallpaper env T)
         @ (if fst (processWallpaper env T) \<noteq> []
            then setWallpaper env (fst (processWallpaper env T)) else []))
   \<and> doFetch env' (fst (polls (fst (doFetch env s)) envs))
       = (fst (polls (fst (doFetch env s)) envs),
          [HttpGet latestURL, Log ''Latest image date: %s'', SetTitle (''Date: '' @ raw')])"
proof -
  let ?s1 = "fst (doFetch env s)"
  let ?s2 = "fst (polls ?s1 envs)"
  have a: "?s1 = s\<lparr>latestImageTime := T, latestImageDate := raw\<rparr>"
    by (simp add: doFetch_claimed [OF assms(1-3)])
  have b: "snd (doFetch env s)
       = [HttpGet latestURL, Log ''Latest image date: %s'',
          StoreTime T, StoreDate raw, SetTitle (''Date: '' @ raw)]
         @ snd (processWallpaper env T)
         @ (if fst (processWallpaper env T) \<noteq> []
            then setWallpaper env (fst (processWallpaper env T)) else [])"
    by (simp add: doFetch_claimed [OF assms(1-3)] latestImage_events [OF assms(1)])
  have c: "list_all (\<lambda>e. \<not> isStore e)
        (snd (processWallpaper env T)
         @ (if fst (processWallpaper env T) \<noteq> []
            then setWallpaper env (fst (processWallpaper env T)) else []))"
    by (simp add: processWallpaper_no_store setWallpaper_no_store)
  have "\<not> After T (latestImageTime ?s1)"
    unfolding a by (simp add: After_def)
  from polls_keep_later [OF assms(4) this]
  have k: "\<not> After T (latestImageTime ?s2)" .
  have nz: "\<not> IsZero (latestImageTime ?s2)"
    using assms(4) k by (auto simp: After_def IsZero_def)
  have d: "doFetch env' ?s2
       = (?s2, [HttpGet latestURL, Log ''Latest image date: %s'', SetTitle (''Date: '' @ raw')])"
    by (simp add: doFetch_rejected [OF assms(5,6) nz k] latestImage_events [OF assms(5)])
  show ?thesis using a b c d by simp
qed

theorem claim_commits_before_pipeline_witness:
  "fst (latestImage worldCreateFails) = Inr ''2026-01-11 16:10:00''
   \<and> timeParse worldCreateFails ''2026-01-11 16:10:00'' = Inr (utc 2026 1 11 16 10 0)
   \<and> IsZero (latestImageTime initState)
   \<and> After (utc 2026 1 11 16 10 0) zeroTime
   \<and> fst (latestImage world) = Inr ''2026-01-11 16:10:00''
   \<and> timeParse world ''2026-01-11 16:10:00'' = Inr (utc 2026 1 11 16 10 0)
   \<and> fst (processWallpaper worldCreateFails (utc 2026 1 11 16 10 0)) = []
   \<and> fst (doFetch worldCreateFails initState)
       = \<lparr>latestImageDate = ''2026-01-11 16:10:00'', latestImageTime = utc 2026 1 11 16 10 0\<rparr>
   \<and> fst (polls (fst (doFetch worldCreateFails initState)) [worldUnparsable])
       = \<lparr>latestImageDate = ''soon'', latestImageTime = utc 2026 1 11 16 10 0\<rparr>
   \<and> doFetch world (fst (polls (fst (doFetch worldCreateFails initState)) [worldUnparsable]))
       = (\<lparr>latestImageDate = ''soon'', latestImageTime = utc 2026 1 11 16 10 0\<rparr>,
          [HttpGet latestURL, Log ''Latest image date: %s'',
           SetTitle ''Date: 2026-01-11 16:10:00''])"
proof -
  let ?T = "utc 2026 1 11 16 10 0"
  let ?s1 = "\<lparr>latestImageDate = ''2026-01-11 16:10:00'', latestImageTime = ?T\<rparr>"
  let ?s2 = "\<lparr>latestImageDate = ''soon'', latestImageTime = ?T\<rparr>"
  have l1: "fst (latestImage worldCreateFails) = Inr ''2026-01-11 16:10:00''"
    by (simp add: world_latestImage worldCreateFails_def)
  have l2: "fst (latestImage world) = Inr ''2026-01-11 16:10:00''"
    by (simp add: world_latestImage)
  have p1: "timeParse worldCreateFails ''2026-01-11 16:10:00'' = Inr ?T"
    by (simp add: worldCreateFails_def world_def)
  have p2: "timeParse world ''2026-01-11 16:10:00'' = Inr ?T"
    by (simp add: world_def)
  have z: "IsZero (latestImageTime initState)"
    by (simp add: initState_def IsZero_def)
  then have z': "IsZero (latestImageTime initState) \<or> After ?T (latestImageTime initState)" ..
  have a: "After ?T zeroTime"
    by (simp add: After_def instant_def utc_def zeroTime_def)
  have c: "osCreate worldCreateFails (tempPath worldCreateFails ''earth_wallpaper_full.png'')
           = Some (Error ''permission denied'')"
    by (simp add: worldCreateFails_def)
  have f: "fst (processWallpaper worldCreateFails ?T) = []"
    by (simp add: processWallpaper_not_created [OF c])
  have lu: "fst (latestImage worldUnparsable) = Inr ''soon''"
    using latestURL_not_tile by (simp add: latestImage_def worldUnparsable_def world_def)
  have pu: "timeParse worldUnparsable ''soon'' = Inl (Error ''cannot parse'')"
    by (simp add: worldUnparsable_def world_def)
  note T = claim_commits_before_pipeline [OF l1 p1 z' a l2 p2, of "[worldUnparsable]"]
  have I: "initState\<lparr>latestImageTime := ?T, latestImageDate := ''2026-01-11 16:10:00''\<rparr> = ?s1"
    by (simp add: initState_def)
  from T I have A: "fst (doFetch worldCreateFails initState) = ?s1"
    by simp
  have P: "fst (polls (fst (doFetch worldCreateFails initState)) [worldUnparsable]) = ?s2"
    unfolding A by (simp add: doFetch_unparsed [OF lu pu])
  from T have "doFetch world (fst (polls (fst (doFetch worldCreateFails initState)) [worldUnparsable]))
           = (fst (polls (fst (doFetch worldCreateFails initState)) [worldUnparsable]),
              [HttpGet latestURL, Log ''Latest image date: %s'',
               SetTitle (''Date: '' @ ''2026-01-11 16:10:00'')])"
    by blast
  then have D: "doFetch world (fst (polls (fst (doFetch worldCreateFails initState)) [worldUnparsable]))
           = (?s2, [HttpGet latestURL, Log ''Latest image date: %s'',
                    SetTitle ''Date: 2026-01-11 16:10:00''])"
    unfolding P by simp
  show ?thesis
    by (intro conjI) (rule l1 p1 z a l2 p2 f A P D)+
qed

end
